theory Spec2Isabelle
  imports Complex_Main "HOL-Library.AList"
begin

text \<open>
  A shallow embedding of the gateway of the shopping-list microservices: the service
  registry (\<open>ServiceRegistry\<close>), and of the class \<open>ApiGateway\<close> the circuit breakers,
  the proxy handler, the health-check endpoint and the two aggregated endpoints
  (dashboard and search). State is passed explicitly; the clock, the network and the
  library functions the handlers call are arguments; a thrown error is a value.
\<close>

section \<open>JavaScript values\<close>

text \<open>
  The values that travel through the gateway (request bodies, response bodies, service
  metadata, query parameters) are JSON-like JavaScript values. \<open>JUndefined\<close> is the
  result of reading a property that is not there. \<open>JNum\<close> holds a finite number; the
  three numbers that are not finite have constructors of their own.
\<close>

datatype jsval =
    JUndefined
  | JNull
  | JBool bool
  | JNum real
  | JNaN
  | JInfinity
  | JMinusInfinity
  | JStr string
  | JArr "jsval list"
  | JObj "(string \<times> jsval) list"

section \<open>The service registry (class ServiceRegistry)\<close>

text \<open>
  \<open>this.services\<close> is a plain JavaScript object used as a dictionary from service names
  to records. Its own properties are modelled as an association list in insertion order,
  the field \<open>stored\<close>; a JavaScript object holds each key once, which is the invariant
  \<open>wf_registry\<close>. Timestamps are milliseconds since the epoch (the ISO strings the code
  stores carry exactly that), read from the clock by the caller and passed in. Writing the
  registry file (\<open>saveRegistry\<close>) is best effort and changes nothing the running process
  reads, so it is not part of the state.
\<close>

record service_info =
  url :: string
  meta :: "(string \<times> jsval) list"

record service = service_info +
  registeredAt :: int
  lastHealthCheck :: int
  healthy :: bool

text \<open>
  A plain object inherits from \<open>Object.prototype\<close>, so \<open>this.services[serviceName]\<close>
  finds more than the own properties: for the names in \<open>object_members\<close> it finds the
  built-in function of that name, and for \<open>__proto__\<close> it finds \<open>Object.prototype\<close>
  itself. \<open>updateHealth\<close> writes the flag \<open>healthy\<close> on whatever the lookup finds, also on
  such a function; the flags written there are the field \<open>member_healthy\<close> (the timestamp
  written next to the flag is never read back).
\<close>

record registry =
  stored :: "(string \<times> service) list"
  member_healthy :: "(string \<times> bool) list"

datatype found = Record service | Member string | ObjectPrototype

definition object_members :: "string list" where
  "object_members =
     [''constructor'', ''__defineGetter__'', ''__defineSetter__'', ''hasOwnProperty'',
      ''__lookupGetter__'', ''__lookupSetter__'', ''isPrototypeOf'', ''propertyIsEnumerable'',
      ''toString'', ''valueOf'', ''toLocaleString'']"

definition wf_registry :: "registry \<Rightarrow> bool" where
  "wf_registry services = distinct (map fst (stored services))"

text \<open>\<open>services_at services serviceName\<close> is \<open>this.services[serviceName]\<close>; \<open>None\<close> is \<open>undefined\<close>.\<close>

definition services_at :: "registry \<Rightarrow> string \<Rightarrow> found option" where
  "services_at services serviceName =
     (case map_of (stored services) serviceName of
        Some service \<Rightarrow> Some (Record service)
      | None \<Rightarrow>
          if serviceName \<in> set object_members then Some (Member serviceName)
          else if serviceName = ''__proto__'' then Some ObjectPrototype
          else None)"

text \<open>
  \<open>found_healthy services service\<close> is the truth value of \<open>service.healthy\<close>: the flag of
  a record, the flag written on a built-in function if one was written, and \<open>undefined\<close> on
  \<open>Object.prototype\<close>, which has no such property.
\<close>

fun found_healthy :: "registry \<Rightarrow> found \<Rightarrow> bool" where
  "found_healthy services (Record service) = healthy service"
| "found_healthy services (Member m) = (map_of (member_healthy services) m = Some True)"
| "found_healthy services ObjectPrototype = False"

text \<open>
  \<open>register\<close>: the record is the spread of \<open>serviceInfo\<close> followed by the three
  bookkeeping fields, which win over keys of the same name; \<open>meta\<close> stands for the keys
  of \<open>serviceInfo\<close> other than \<open>url\<close> and those three. The clock is read twice, once
  per timestamp. The assignment creates or replaces an own property, which from then on
  hides an inherited member of the same name.

  The one name the assignment treats differently is \<open>__proto__\<close> when it is not an own
  property: the assignment then calls the setter inherited from \<open>Object.prototype\<close>, which
  replaces the prototype of \<open>this.services\<close> by the new record, and \<open>updateHealth\<close> on
  that name writes \<open>healthy\<close> on \<open>Object.prototype\<close> itself. After either write the lookup
  of a name follows a prototype chain that the state of this model does not hold. Both
  functions therefore return the registry as an option next to their result: the result
  is \<open>true\<close> as in the code, and the registry is \<open>None\<close> after such a write, of which the
  model says nothing further.
\<close>

definition register ::
  "registry \<Rightarrow> string \<Rightarrow> service_info \<Rightarrow> int \<Rightarrow> int \<Rightarrow> registry option \<times> bool" where
  "register services serviceName serviceInfo now1 now2 =
     (if serviceName = ''__proto__'' \<and> map_of (stored services) serviceName = None
      then (None, True)
      else
        (Some (services\<lparr>stored :=
           AList.update serviceName
             \<lparr>url = url serviceInfo, meta = meta serviceInfo,
              registeredAt = now1, lastHealthCheck = now2, healthy = True\<rparr> (stored services)\<rparr>),
         True))"

text \<open>
  \<open>unregister\<close>: the test is the truth value of the lookup, so it also succeeds on an
  inherited member, where \<open>delete\<close> finds no own property and removes nothing.
\<close>

definition unregister :: "registry \<Rightarrow> string \<Rightarrow> registry \<times> bool" where
  "unregister services serviceName =
     (case services_at services serviceName of
        Some _ \<Rightarrow> (services\<lparr>stored := AList.delete serviceName (stored services)\<rparr>, True)
      | None \<Rightarrow> (services, False))"

definition discover :: "registry \<Rightarrow> string \<Rightarrow> found option" where
  "discover services serviceName =
     (case services_at services serviceName of
        None \<Rightarrow> None
      | Some service \<Rightarrow> if \<not> found_healthy services service then None else Some service)"

definition updateHealth ::
  "registry \<Rightarrow> string \<Rightarrow> bool \<Rightarrow> int \<Rightarrow> registry option \<times> bool" where
  "updateHealth services serviceName isHealthy now =
     (case services_at services serviceName of
        Some (Record service) \<Rightarrow>
          (Some (services\<lparr>stored :=
                   AList.update serviceName
                     (service\<lparr>healthy := isHealthy, lastHealthCheck := now\<rparr>) (stored services)\<rparr>),
           True)
      | Some (Member m) \<Rightarrow>
          (Some (services\<lparr>member_healthy := AList.update m isHealthy (member_healthy services)\<rparr>),
           True)
      | Some ObjectPrototype \<Rightarrow> (None, True)
      | None \<Rightarrow> (Some services, False))"

text \<open>\<open>getAllServices\<close>: the spread copies the own properties.\<close>

definition getAllServices :: "registry \<Rightarrow> (string \<times> service) list" where
  "getAllServices services = stored services"

text \<open>
  \<open>cleanup\<close>: the loop runs over the snapshot \<open>Object.entries(this.services)\<close>, the own
  properties, and deletes from the live object. \<open>diffMinutes\<close> is the quotient of the
  millisecond difference by \<open>1000 * 60\<close>.
\<close>

fun cleanup_loop ::
  "int \<Rightarrow> (string \<times> service) list \<Rightarrow> (string \<times> service) list \<times> bool \<Rightarrow>
   (string \<times> service) list \<times> bool" where
  "cleanup_loop now [] acc = acc"
| "cleanup_loop now ((serviceName, serviceInfo) # entries) (services, cleaned) =
     (let lastCheck = lastHealthCheck serviceInfo;
          diffMinutes = real_of_int (now - lastCheck) / (1000 * 60)
      in if diffMinutes > 2
         then cleanup_loop now entries (AList.delete serviceName services, True)
         else cleanup_loop now entries (services, cleaned))"

definition cleanup :: "registry \<Rightarrow> int \<Rightarrow> registry \<times> bool" where
  "cleanup services now =
     (case cleanup_loop now (stored services) (stored services, False) of
        (kept, cleaned) \<Rightarrow> (services\<lparr>stored := kept\<rparr>, cleaned))"

text \<open>
  What the gateway reads of a discovered service is its \<open>url\<close>, in a template string or
  as the argument of \<open>new URL\<close>: the address of a record, and the text \<open>undefined\<close> for a
  built-in function, which has no such property.
\<close>

fun found_url :: "found \<Rightarrow> string" where
  "found_url (Record service) = url service"
| "found_url (Member m) = ''undefined''"
| "found_url ObjectPrototype = ''undefined''"


section \<open>JavaScript helpers\<close>

text \<open>
  Strings are lists of bytes. The accented letters of the gateway's Portuguese messages
  are written as their UTF-8 bytes.
\<close>

definition c_cedilla :: string where "c_cedilla = [CHR 0xC3, CHR 0xA7]"
definition a_tilde :: string where "a_tilde = [CHR 0xC3, CHR 0xA3]"
definition a_acute :: string where "a_acute = [CHR 0xC3, CHR 0xA1]"
definition a_circumflex :: string where "a_circumflex = [CHR 0xC3, CHR 0xA2]"
definition e_acute :: string where "e_acute = [CHR 0xC3, CHR 0xA9]"
definition i_acute :: string where "i_acute = [CHR 0xC3, CHR 0xAD]"
definition o_acute :: string where "o_acute = [CHR 0xC3, CHR 0xB3]"

definition startsWith :: "string \<Rightarrow> string \<Rightarrow> bool" where
  "startsWith s p = (take (length p) s = p)"

text \<open>
  \<open>s.replace(pattern, replacement)\<close> with a string pattern replaces the first occurrence
  only. The code only ever replaces by the empty string, so the dollar patterns of the
  replacement play no part.
\<close>

fun js_replace :: "string \<Rightarrow> string \<Rightarrow> string \<Rightarrow> string" where
  "js_replace [] pat rep = (if pat = [] then rep else [])"
| "js_replace (c # cs) pat rep =
     (if startsWith (c # cs) pat then rep @ drop (length pat) (c # cs)
      else c # js_replace cs pat rep)"

text \<open>\<open>s.split(sep)[0]\<close>: the part of \<open>s\<close> before the first separator.\<close>

definition split_first :: "char \<Rightarrow> string \<Rightarrow> string" where
  "split_first sep s = takeWhile (\<lambda>c. c \<noteq> sep) s"

fun js_includes :: "string \<Rightarrow> string \<Rightarrow> bool" where
  "js_includes [] sub = (sub = [])"
| "js_includes (c # cs) sub = (startsWith (c # cs) sub \<or> js_includes cs sub)"

fun truthy :: "jsval \<Rightarrow> bool" where
  "truthy JUndefined = False"
| "truthy JNull = False"
| "truthy (JBool b) = b"
| "truthy (JNum n) = (n \<noteq> 0)"
| "truthy JNaN = False"
| "truthy JInfinity = True"
| "truthy JMinusInfinity = True"
| "truthy (JStr s) = (s \<noteq> [])"
| "truthy (JArr _) = True"
| "truthy (JObj _) = True"

text \<open>
  Reading a property: a \<open>TypeError\<close> on \<open>null\<close> and \<open>undefined\<close> (\<open>Inl\<close> carries the
  message of the error), \<open>undefined\<close> for a key that is not there. The keys the gateway
  reads are not properties of strings, numbers, booleans or arrays.
\<close>

definition cannot_read :: "string \<Rightarrow> string \<Rightarrow> string" where
  "cannot_read what key =
     ''Cannot read properties of '' @ what @ '' (reading '' @ [CHR 0x27] @ key @ [CHR 0x27] @ '')''"

fun js_prop :: "jsval \<Rightarrow> string \<Rightarrow> string + jsval" where
  "js_prop JUndefined key = Inl (cannot_read ''undefined'' key)"
| "js_prop JNull key = Inl (cannot_read ''null'' key)"
| "js_prop (JObj kvs) key = Inr (case map_of kvs key of None \<Rightarrow> JUndefined | Some v \<Rightarrow> v)"
| "js_prop _ key = Inr JUndefined"

text \<open>\<open>js_path v [a, b]\<close> is \<open>v.a.b\<close>.\<close>

fun js_path :: "jsval \<Rightarrow> string list \<Rightarrow> string + jsval" where
  "js_path v [] = Inr v"
| "js_path v (key # keys) =
     (case js_prop v key of
        Inl e \<Rightarrow> Inl e
      | Inr w \<Rightarrow> js_path w keys)"

text \<open>
  An object literal \<open>{ k1: e1, k2: e2 }\<close>: the property values are evaluated in the order
  they are written, and the first that throws ends the evaluation.
\<close>

fun js_fields :: "(string \<times> (string + jsval)) list \<Rightarrow> string + (string \<times> jsval) list" where
  "js_fields [] = Inr []"
| "js_fields ((key, r) # rest) =
     (case r of
        Inl e \<Rightarrow> Inl e
      | Inr v \<Rightarrow>
          (case js_fields rest of
             Inl e \<Rightarrow> Inl e
           | Inr kvs \<Rightarrow> Inr ((key, v) # kvs)))"

definition js_object :: "(string \<times> (string + jsval)) list \<Rightarrow> string + jsval" where
  "js_object props =
     (case js_fields props of
        Inl e \<Rightarrow> Inl e
      | Inr kvs \<Rightarrow> Inr (JObj kvs))"

text \<open>
  \<open>xs.filter(p)\<close> and \<open>xs.map(f)\<close> on an array, with a callback that may throw: the
  elements are visited in order and the first throw ends the call.
\<close>

fun filter_throwing :: "('a \<Rightarrow> string + bool) \<Rightarrow> 'a list \<Rightarrow> string + 'a list" where
  "filter_throwing p [] = Inr []"
| "filter_throwing p (x # xs) =
     (case p x of
        Inl e \<Rightarrow> Inl e
      | Inr b \<Rightarrow>
          (case filter_throwing p xs of
             Inl e \<Rightarrow> Inl e
           | Inr ys \<Rightarrow> Inr (if b then x # ys else ys)))"

fun map_throwing :: "('a \<Rightarrow> string + 'b) \<Rightarrow> 'a list \<Rightarrow> string + 'b list" where
  "map_throwing f [] = Inr []"
| "map_throwing f (x # xs) =
     (case f x of
        Inl e \<Rightarrow> Inl e
      | Inr y \<Rightarrow>
          (case map_throwing f xs of
             Inl e \<Rightarrow> Inl e
           | Inr ys \<Rightarrow> Inr (y # ys)))"

section \<open>Requests, responses and the network\<close>

text \<open>
  \<open>headers\<close> is \<open>req.headers\<close>, whose keys Node has already put in lower case, so that
  \<open>req.header('Authorization')\<close> is the entry \<open>authorization\<close>. \<open>query\<close> is \<open>req.query\<close>
  as the query parser of Express builds it: the value of a parameter is a string, an array
  when the parameter is repeated (\<open>?q=a&q=b\<close>), or an object for the bracket notation
  (\<open>?q[k]=a\<close>).
\<close>

record request =
  httpMethod :: string
  originalUrl :: string
  headers :: "(string \<times> string) list"
  body :: jsval
  query :: "(string \<times> jsval) list"

text \<open>
  An answer is its status and the value handed to \<open>res.json\<close>; a property of that value
  that is \<open>undefined\<close> is left out when the value is written as JSON.
\<close>

record response =
  status :: nat
  json :: jsval

text \<open>The configuration object handed to axios: one value per downstream call.\<close>

record axios_config =
  cfg_method :: string
  cfg_url :: string
  cfg_data :: jsval
  cfg_headers :: "(string \<times> string) list"
  cfg_timeout :: nat

text \<open>
  What awaiting an axios call gives: the promise resolves with a response (status and
  data), or rejects with an error that has a message and, when the downstream answered
  with an error status, that response; a network failure or a timeout has none.
\<close>

datatype axios_result =
    Resolved nat jsval
  | Rejected string "(nat \<times> jsval) option"

type_synonym network = "axios_config \<Rightarrow> axios_result"

section \<open>The circuit breakers (class ApiGateway)\<close>

datatype cb_state = CLOSED | OPEN | HALF_OPEN

record breaker =
  failures :: nat
  state :: cb_state
  lastFailure :: int

text \<open>
  \<open>this.circuitBreakers\<close> is created with the three service names and no key is ever
  added to it; \<open>breakers\<close> holds its own properties. For a name that is not an own key
  but the name of a member inherited from \<open>Object.prototype\<close>, the handlers find that
  function and write their counters on it. These writes never reach an own entry, and the
  one read that could turn them into an answer, the check at the head of \<open>proxyToService\<close>
  for such a name, belongs to no handler: \<open>setupRoutes\<close> creates the handlers for the three
  names only. A name without an own entry is therefore a name without a breaker.
\<close>

type_synonym breakers = "string \<rightharpoonup> breaker"

definition initial_breakers :: breakers where
  "initial_breakers =
     [''user-service'' \<mapsto> \<lparr>failures = 0, state = CLOSED, lastFailure = 0\<rparr>,
      ''item-service'' \<mapsto> \<lparr>failures = 0, state = CLOSED, lastFailure = 0\<rparr>,
      ''list-service'' \<mapsto> \<lparr>failures = 0, state = CLOSED, lastFailure = 0\<rparr>]"

subsection \<open>proxyToService\<close>

text \<open>
  The handler runs in three blocks: the check of the breaker before the \<open>try\<close>, the
  update after the awaited call has resolved, and the update in the \<open>catch\<close>. Each is a
  function on the breaker table; \<open>now\<close> is the value of \<open>Date.now()\<close> the block reads.
  The states are the strings \<open>CLOSED\<close>, \<open>OPEN\<close> and \<open>HALF-OPEN\<close> of the code. A handler
  is modelled as running from its first line to its answer: what other handlers do to the
  table while this one awaits its downstream call is not part of the model.
\<close>

definition proxy_check_breaker :: "string \<Rightarrow> int \<Rightarrow> breakers \<Rightarrow> response + breakers" where
  "proxy_check_breaker serviceName now cbs =
     (case cbs serviceName of
        None \<Rightarrow> Inr cbs
      | Some cb \<Rightarrow>
          if state cb = OPEN then
            (let timeSinceLastFailure = now - lastFailure cb
             in if timeSinceLastFailure > 30000
                then Inr (cbs(serviceName \<mapsto> cb\<lparr>state := HALF_OPEN\<rparr>))
                else Inl \<lparr>status = 503,
                       json = JObj [(''success'', JBool False),
                         (''message'', JStr (''Servi'' @ c_cedilla @ ''o '' @ serviceName
                            @ '' temporariamente indispon'' @ i_acute @ ''vel'')),
                         (''circuitBreaker'', JStr ''OPEN'')]\<rparr>)
          else Inr cbs)"

definition proxy_on_success :: "string \<Rightarrow> breakers \<Rightarrow> breakers" where
  "proxy_on_success serviceName cbs =
     (case cbs serviceName of
        None \<Rightarrow> cbs
      | Some cb \<Rightarrow>
          if state cb = HALF_OPEN
          then cbs(serviceName \<mapsto> cb\<lparr>state := CLOSED, failures := 0\<rparr>)
          else cbs)"

definition proxy_on_error :: "string \<Rightarrow> int \<Rightarrow> breakers \<Rightarrow> breakers" where
  "proxy_on_error serviceName now cbs =
     (case cbs serviceName of
        None \<Rightarrow> cbs
      | Some cb \<Rightarrow>
          (let cb1 = cb\<lparr>failures := failures cb + 1, lastFailure := now\<rparr>
           in if failures cb1 \<ge> 3 then cbs(serviceName \<mapsto> cb1\<lparr>state := OPEN\<rparr>)
              else if state cb1 = HALF_OPEN then cbs(serviceName \<mapsto> cb1\<lparr>state := OPEN\<rparr>)
              else cbs(serviceName \<mapsto> cb1)))"

definition error_response :: "string \<Rightarrow> string \<Rightarrow> (nat \<times> jsval) option \<Rightarrow> response" where
  "error_response serviceName message error_resp =
     (case error_resp of
        Some (st, d) \<Rightarrow> \<lparr>status = st, json = d\<rparr>
      | None \<Rightarrow> \<lparr>status = 503,
          json = JObj [(''success'', JBool False),
            (''message'', JStr (''Servi'' @ c_cedilla @ ''o '' @ serviceName
               @ '' indispon'' @ i_acute @ ''vel'')),
            (''error'', JStr message)]\<rparr>)"

text \<open>
  The target URL and the configuration of the forwarded call. \<open>host\<close> is
  \<open>new URL(service.url).host\<close>.
\<close>

definition target_url :: "found \<Rightarrow> string \<Rightarrow> request \<Rightarrow> string" where
  "target_url service serviceName req =
     found_url service @
     js_replace (originalUrl req) (''/api/'' @ split_first CHR ''-'' serviceName) []"

definition proxy_config :: "found \<Rightarrow> string \<Rightarrow> string \<Rightarrow> request \<Rightarrow> axios_config" where
  "proxy_config service serviceName host req =
     \<lparr>cfg_method = httpMethod req,
      cfg_url = target_url service serviceName req,
      cfg_data = body req,
      cfg_headers = AList.update ''host'' host (headers req),
      cfg_timeout = 10000\<rparr>"

text \<open>
  \<open>url_host u\<close> is \<open>new URL(u).host\<close>, \<open>None\<close> when the constructor throws, which
  happens inside the \<open>try\<close> and before the call. The handler returns the breaker table,
  the response it sends and the downstream calls it made.
\<close>

definition proxyToService ::
  "(string \<Rightarrow> string option) \<Rightarrow> registry \<Rightarrow> network \<Rightarrow> string \<Rightarrow> int \<Rightarrow> int \<Rightarrow> request \<Rightarrow>
   breakers \<Rightarrow> breakers \<times> response \<times> axios_config list" where
  "proxyToService url_host services net serviceName now1 now2 req cbs =
     (case proxy_check_breaker serviceName now1 cbs of
        Inl res \<Rightarrow> (cbs, res, [])
      | Inr cbs1 \<Rightarrow>
          (case discover services serviceName of
             None \<Rightarrow>
               (cbs1,
                \<lparr>status = 503,
                 json = JObj [(''success'', JBool False),
                   (''message'', JStr (''Servi'' @ c_cedilla @ ''o '' @ serviceName
                      @ '' n'' @ a_tilde @ ''o encontrado''))]\<rparr>,
                [])
           | Some service \<Rightarrow>
               (case url_host (found_url service) of
                  None \<Rightarrow>
                    (proxy_on_error serviceName now2 cbs1,
                     error_response serviceName ''Invalid URL'' None, [])
                | Some host \<Rightarrow>
                    (let config = proxy_config service serviceName host req
                     in case net config of
                          Resolved st d \<Rightarrow>
                            (proxy_on_success serviceName cbs1,
                             \<lparr>status = st, json = d\<rparr>, [config])
                        | Rejected message error_resp \<Rightarrow>
                            (proxy_on_error serviceName now2 cbs1,
                             error_response serviceName message error_resp,
                             [config])))))"


text \<open>
  The breaker of the called service as the check leaves it when the call is let through:
  an OPEN breaker whose cool-down has elapsed has become HALF-OPEN.
\<close>

definition after_gate :: "breaker \<Rightarrow> breaker" where
  "after_gate cb = (if state cb = OPEN then cb\<lparr>state := HALF_OPEN\<rparr> else cb)"

subsection \<open>healthCheck\<close>

text \<open>
  One probe per registered service, in the order of \<open>Object.entries\<close>. \<open>probe\<close> gives
  the outcome of the probe issued for a service name, \<open>clock\<close> the value of \<open>Date.now()\<close>
  read when that probe has failed.
\<close>

datatype health_result = Healthy jsval | Unhealthy string

definition health_on_success :: "string \<Rightarrow> breakers \<Rightarrow> breakers" where
  "health_on_success serviceName cbs =
     (case cbs serviceName of
        None \<Rightarrow> cbs
      | Some cb \<Rightarrow> cbs(serviceName \<mapsto> cb\<lparr>failures := 0, state := CLOSED\<rparr>))"

definition health_on_error :: "string \<Rightarrow> int \<Rightarrow> breakers \<Rightarrow> breakers" where
  "health_on_error serviceName now cbs =
     (case cbs serviceName of
        None \<Rightarrow> cbs
      | Some cb \<Rightarrow>
          (let cb1 = cb\<lparr>failures := failures cb + 1, lastFailure := now\<rparr>
           in if failures cb1 \<ge> 3 then cbs(serviceName \<mapsto> cb1\<lparr>state := OPEN\<rparr>)
              else cbs(serviceName \<mapsto> cb1)))"

definition health_config :: "string \<Rightarrow> axios_config" where
  "health_config u =
     \<lparr>cfg_method = ''get'', cfg_url = u @ ''/health'', cfg_data = JUndefined,
      cfg_headers = [], cfg_timeout = 3000\<rparr>"

fun healthCheck_loop ::
  "(string \<Rightarrow> axios_config \<Rightarrow> axios_result) \<Rightarrow> (string \<Rightarrow> int) \<Rightarrow> (string \<times> service) list \<Rightarrow>
   breakers \<times> (string \<times> health_result) list \<Rightarrow> breakers \<times> (string \<times> health_result) list" where
  "healthCheck_loop probe clock [] acc = acc"
| "healthCheck_loop probe clock ((serviceName, serviceInfo) # entries) (cbs, healthResults) =
     (case probe serviceName (health_config (url serviceInfo)) of
        Resolved st d \<Rightarrow>
          healthCheck_loop probe clock entries
            (health_on_success serviceName cbs,
             AList.update serviceName (Healthy d) healthResults)
      | Rejected message error_resp \<Rightarrow>
          healthCheck_loop probe clock entries
            (health_on_error serviceName (clock serviceName) cbs,
             AList.update serviceName (Unhealthy message) healthResults))"

record health_response =
  hr_services :: "(string \<times> health_result) list"
  hr_circuitBreakers :: breakers

definition healthCheck ::
  "(string \<Rightarrow> axios_config \<Rightarrow> axios_result) \<Rightarrow> (string \<Rightarrow> int) \<Rightarrow> registry \<Rightarrow> breakers \<Rightarrow>
   breakers \<times> health_response" where
  "healthCheck probe clock registry cbs =
     (let (cbs', healthResults) = healthCheck_loop probe clock (getAllServices registry) (cbs, [])
      in (cbs', \<lparr>hr_services = healthResults, hr_circuitBreakers = cbs'\<rparr>))"


section \<open>The aggregated endpoints\<close>

text \<open>
  A thrown error is \<open>Inl\<close> of its message. Every function returns the downstream calls it
  made next to its result, in the order they were made.
\<close>

definition bearer :: "request \<Rightarrow> string option" where
  "bearer req =
     (case map_of (headers req) ''authorization'' of
        None \<Rightarrow> None
      | Some authHeader \<Rightarrow>
          if startsWith authHeader ''Bearer ''
          then Some (js_replace authHeader ''Bearer '' [])
          else None)"

definition axios_get :: "string \<Rightarrow> (string \<times> string) list \<Rightarrow> nat \<Rightarrow> axios_config" where
  "axios_get u hs t =
     \<lparr>cfg_method = ''get'', cfg_url = u, cfg_data = JUndefined, cfg_headers = hs, cfg_timeout = t\<rparr>"

definition axios_post :: "string \<Rightarrow> jsval \<Rightarrow> nat \<Rightarrow> axios_config" where
  "axios_post u d t =
     \<lparr>cfg_method = ''post'', cfg_url = u, cfg_data = d, cfg_headers = [], cfg_timeout = t\<rparr>"

text \<open>
  \<open>fetch\<close>: discover a service and await one call to it. Reading \<open>url\<close> of the \<open>null\<close>
  that \<open>discover\<close> returns throws before any call is made; a rejected call throws the
  message of its error.
\<close>

definition fetch ::
  "registry \<Rightarrow> network \<Rightarrow> string \<Rightarrow> (string \<Rightarrow> axios_config) \<Rightarrow> (string + jsval) \<times> axios_config list" where
  "fetch services net serviceName mk =
     (case discover services serviceName of
        None \<Rightarrow> (Inl (cannot_read ''null'' ''url''), [])
      | Some service \<Rightarrow>
          (let config = mk (found_url service)
           in case net config of
                Resolved st d \<Rightarrow> (Inr d, [config])
              | Rejected message error_resp \<Rightarrow> (Inl message, [config])))"

subsection \<open>getDashboard\<close>

definition validate_config :: "string \<Rightarrow> string \<Rightarrow> axios_config" where
  "validate_config token u = axios_post (u @ ''/auth/validate'') (JObj [(''token'', JStr token)]) 5000"

definition lists_config :: "string \<Rightarrow> string \<Rightarrow> axios_config" where
  "lists_config token u = axios_get (u @ ''/lists'') [(''Authorization'', ''Bearer '' @ token)] 5000"

definition items_config :: "string \<Rightarrow> axios_config" where
  "items_config u = axios_get (u @ ''/items?active=true&limit=1'') [] 5000"

text \<open>
  \<open>lists = listsResponse.data.success ? listsResponse.data.data : []\<close> and
  \<open>totalItems = itemsResponse.data.success ? itemsResponse.data.pagination.total : 0\<close>.
\<close>

definition lists_of :: "jsval \<Rightarrow> string + jsval" where
  "lists_of listsData =
     (case js_prop listsData ''success'' of
        Inl e \<Rightarrow> Inl e
      | Inr ok \<Rightarrow> if truthy ok then js_prop listsData ''data'' else Inr (JArr []))"

definition totalItems_of :: "jsval \<Rightarrow> string + jsval" where
  "totalItems_of itemsData =
     (case js_prop itemsData ''success'' of
        Inl e \<Rightarrow> Inl e
      | Inr ok \<Rightarrow>
          if truthy ok
          then (case js_prop itemsData ''pagination'' of
                  Inl e \<Rightarrow> Inl e
                | Inr p \<Rightarrow> js_prop p ''total'')
          else Inr (JNum 0))"

text \<open>
  The statistics. \<open>has_status s\<close> is the callback \<open>list => list.status === s\<close>, and
  \<open>sum_estimated\<close> is the \<open>reduce\<close> that adds up \<open>list.summary.estimatedTotal\<close>. Two
  operations of the language on numbers are arguments: \<open>js_plus a b\<close> is \<open>a + b\<close>
  (floating-point addition on numbers, concatenation as soon as an operand is a string),
  and \<open>to_fixed v\<close> is \<open>parseFloat(v.toFixed(2))\<close>; both may throw.
\<close>

definition has_status :: "string \<Rightarrow> jsval \<Rightarrow> string + bool" where
  "has_status s list =
     (case js_prop list ''status'' of
        Inl e \<Rightarrow> Inl e
      | Inr v \<Rightarrow> Inr (v = JStr s))"

fun sum_estimated ::
  "(jsval \<Rightarrow> jsval \<Rightarrow> string + jsval) \<Rightarrow> jsval \<Rightarrow> jsval list \<Rightarrow> string + jsval" where
  "sum_estimated js_plus acc [] = Inr acc"
| "sum_estimated js_plus acc (list # rest) =
     (case js_path list [''summary'', ''estimatedTotal''] of
        Inl e \<Rightarrow> Inl e
      | Inr estimatedTotal \<Rightarrow>
          (case js_plus acc estimatedTotal of
             Inl e \<Rightarrow> Inl e
           | Inr acc' \<Rightarrow> sum_estimated js_plus acc' rest))"

text \<open>The projection of one list in \<open>recentLists\<close>.\<close>

definition recent_list :: "jsval \<Rightarrow> string + jsval" where
  "recent_list list =
     js_object
       [(''id'', js_prop list ''id''),
        (''name'', js_prop list ''name''),
        (''status'', js_prop list ''status''),
        (''itemCount'', js_path list [''summary'', ''totalItems'']),
        (''purchasedCount'', js_path list [''summary'', ''purchasedItems'']),
        (''estimatedTotal'', js_path list [''summary'', ''estimatedTotal'']),
        (''updatedAt'', js_prop list ''updatedAt'')]"

text \<open>
  The \<open>data\<close> of the answer, from the three statements that compute the statistics to the
  object literal handed to \<open>res.json\<close>. \<open>lists.filter\<close> throws on a value that is not an
  array.
\<close>

definition dashboard_data ::
  "(jsval \<Rightarrow> jsval \<Rightarrow> string + jsval) \<Rightarrow> (jsval \<Rightarrow> string + jsval) \<Rightarrow>
   jsval \<Rightarrow> jsval \<Rightarrow> jsval \<Rightarrow> string + jsval" where
  "dashboard_data js_plus to_fixed user lists' totalItems =
     (case lists' of
        JArr ls \<Rightarrow>
          (case filter_throwing (has_status ''active'') ls of
             Inl e \<Rightarrow> Inl e
           | Inr active \<Rightarrow>
               (case filter_throwing (has_status ''completed'') ls of
                  Inl e \<Rightarrow> Inl e
                | Inr completed \<Rightarrow>
                    (case sum_estimated js_plus (JNum 0) ls of
                       Inl e \<Rightarrow> Inl e
                     | Inr totalEstimated \<Rightarrow>
                         js_object
                           [(''user'',
                             js_object
                               [(''id'', js_prop user ''id''),
                                (''username'', js_prop user ''username''),
                                (''firstName'', js_prop user ''firstName''),
                                (''lastName'', js_prop user ''lastName''),
                                (''preferences'', js_prop user ''preferences'')]),
                            (''statistics'',
                             js_object
                               [(''totalLists'', Inr (JNum (real (length ls)))),
                                (''activeLists'', Inr (JNum (real (length active)))),
                                (''completedLists'', Inr (JNum (real (length completed)))),
                                (''totalItems'', Inr totalItems),
                                (''totalEstimated'', to_fixed totalEstimated)]),
                            (''recentLists'',
                             (case map_throwing recent_list (take 5 ls) of
                                Inl e \<Rightarrow> Inl e
                              | Inr recent \<Rightarrow> Inr (JArr recent)))])))
      | JUndefined \<Rightarrow> Inl (cannot_read ''undefined'' ''filter'')
      | JNull \<Rightarrow> Inl (cannot_read ''null'' ''filter'')
      | _ \<Rightarrow> Inl ''lists.filter is not a function'')"

text \<open>The three stages of the \<open>try\<close> block follow the three awaited calls.\<close>

definition dashboard_items ::
  "(jsval \<Rightarrow> jsval \<Rightarrow> string + jsval) \<Rightarrow> (jsval \<Rightarrow> string + jsval) \<Rightarrow>
   registry \<Rightarrow> network \<Rightarrow> jsval \<Rightarrow> jsval \<Rightarrow>
   (string + response) \<times> axios_config list" where
  "dashboard_items js_plus to_fixed services net user lists' =
     (case fetch services net ''item-service'' items_config of
        (Inl e, calls) \<Rightarrow> (Inl e, calls)
      | (Inr itemsData, calls) \<Rightarrow>
          (case totalItems_of itemsData of
             Inl e \<Rightarrow> (Inl e, calls)
           | Inr totalItems \<Rightarrow>
               (case dashboard_data js_plus to_fixed user lists' totalItems of
                  Inl e \<Rightarrow> (Inl e, calls)
                | Inr d \<Rightarrow>
                    (Inr \<lparr>status = 200, json = JObj [(''success'', JBool True), (''data'', d)]\<rparr>,
                     calls))))"

definition dashboard_lists ::
  "(jsval \<Rightarrow> jsval \<Rightarrow> string + jsval) \<Rightarrow> (jsval \<Rightarrow> string + jsval) \<Rightarrow>
   registry \<Rightarrow> network \<Rightarrow> string \<Rightarrow> jsval \<Rightarrow>
   (string + response) \<times> axios_config list" where
  "dashboard_lists js_plus to_fixed services net token user =
     (case fetch services net ''list-service'' (lists_config token) of
        (Inl e, calls) \<Rightarrow> (Inl e, calls)
      | (Inr listsData, calls) \<Rightarrow>
          (case lists_of listsData of
             Inl e \<Rightarrow> (Inl e, calls)
           | Inr lists' \<Rightarrow>
               (case dashboard_items js_plus to_fixed services net user lists' of
                  (r, calls') \<Rightarrow> (r, calls @ calls'))))"

definition dashboard_user ::
  "(jsval \<Rightarrow> jsval \<Rightarrow> string + jsval) \<Rightarrow> (jsval \<Rightarrow> string + jsval) \<Rightarrow>
   registry \<Rightarrow> network \<Rightarrow> string \<Rightarrow>
   (string + response) \<times> axios_config list" where
  "dashboard_user js_plus to_fixed services net token =
     (case fetch services net ''user-service'' (validate_config token) of
        (Inl e, calls) \<Rightarrow> (Inl e, calls)
      | (Inr userData, calls) \<Rightarrow>
          (case js_prop userData ''success'' of
             Inl e \<Rightarrow> (Inl e, calls)
           | Inr ok \<Rightarrow>
               if \<not> truthy ok
               then (Inr \<lparr>status = 401,
                       json = JObj [(''success'', JBool False),
                         (''message'', JStr (''Token inv'' @ a_acute @ ''lido''))]\<rparr>, calls)
               else (case js_prop userData ''data'' of
                       Inl e \<Rightarrow> (Inl e, calls)
                     | Inr d \<Rightarrow>
                         (case js_prop d ''user'' of
                            Inl e \<Rightarrow> (Inl e, calls)
                          | Inr user \<Rightarrow>
                              (case dashboard_lists js_plus to_fixed services net token user of
                                 (r, calls') \<Rightarrow> (r, calls @ calls'))))))"

definition getDashboard ::
  "(jsval \<Rightarrow> jsval \<Rightarrow> string + jsval) \<Rightarrow> (jsval \<Rightarrow> string + jsval) \<Rightarrow>
   registry \<Rightarrow> network \<Rightarrow> request \<Rightarrow>
   response \<times> axios_config list" where
  "getDashboard js_plus to_fixed services net req =
     (case bearer req of
        None \<Rightarrow>
          (\<lparr>status = 401,
            json = JObj [(''success'', JBool False),
              (''message'', JStr (''Token obrigat'' @ o_acute @ ''rio''))]\<rparr>, [])
      | Some token \<Rightarrow>
          (case dashboard_user js_plus to_fixed services net token of
             (Inr res, calls) \<Rightarrow> (res, calls)
           | (Inl message, calls) \<Rightarrow>
               (\<lparr>status = 500,
                 json = JObj [(''success'', JBool False),
                   (''message'', JStr ''Erro ao carregar dashboard''),
                   (''error'', JStr message)]\<rparr>, calls)))"

subsection \<open>globalSearch\<close>

text \<open>
  \<open>encodeURIComponent\<close> converts its argument to a string first; on the strings, arrays
  and objects that the query parser builds it does not throw.
\<close>

definition search_config :: "(jsval \<Rightarrow> string) \<Rightarrow> jsval \<Rightarrow> string \<Rightarrow> axios_config" where
  "search_config encodeURIComponent q u =
     axios_get (u @ ''/search?q='' @ encodeURIComponent q @ ''&limit=10'') [] 5000"

text \<open>The item section: \<open>results.items\<close> on success, \<open>results.itemsError\<close> on a throw.\<close>

definition search_items ::
  "(jsval \<Rightarrow> string) \<Rightarrow> registry \<Rightarrow> network \<Rightarrow> jsval \<Rightarrow> (string \<times> jsval) list \<Rightarrow>
   (string \<times> jsval) list \<times> axios_config list" where
  "search_items encodeURIComponent services net q results =
     (case fetch services net ''item-service'' (search_config encodeURIComponent q) of
        (Inl e, calls) \<Rightarrow> (AList.update ''itemsError'' (JStr e) results, calls)
      | (Inr d, calls) \<Rightarrow>
          (case js_prop d ''success'' of
             Inl e \<Rightarrow> (AList.update ''itemsError'' (JStr e) results, calls)
           | Inr ok \<Rightarrow>
               if truthy ok
               then (case js_prop d ''data'' of
                       Inl e \<Rightarrow> (AList.update ''itemsError'' (JStr e) results, calls)
                     | Inr items \<Rightarrow> (AList.update ''items'' items results, calls))
               else (results, calls)))"

text \<open>
  The callback of the filter, \<open>list.name.toLowerCase().includes(q.toLowerCase())\<close>:
  \<open>list.name.toLowerCase()\<close> is evaluated first, then the argument \<open>q.toLowerCase()\<close>,
  which is a call of \<open>undefined\<close> when \<open>q\<close> is not a string. \<open>lists.filter(...)\<close> throws
  as soon as the callback does, and on a value that is not an array.
\<close>

definition lower_query :: "(string \<Rightarrow> string) \<Rightarrow> jsval \<Rightarrow> string + string" where
  "lower_query toLowerCase q =
     (case q of
        JStr s \<Rightarrow> Inr (toLowerCase s)
      | JUndefined \<Rightarrow> Inl (cannot_read ''undefined'' ''toLowerCase'')
      | JNull \<Rightarrow> Inl (cannot_read ''null'' ''toLowerCase'')
      | _ \<Rightarrow> Inl ''q.toLowerCase is not a function'')"

definition name_matches :: "(string \<Rightarrow> string) \<Rightarrow> jsval \<Rightarrow> jsval \<Rightarrow> string + bool" where
  "name_matches toLowerCase q list =
     (case js_prop list ''name'' of
        Inl e \<Rightarrow> Inl e
      | Inr (JStr n) \<Rightarrow>
          (case lower_query toLowerCase q of
             Inl e \<Rightarrow> Inl e
           | Inr lowered \<Rightarrow> Inr (js_includes (toLowerCase n) lowered))
      | Inr JUndefined \<Rightarrow> Inl (cannot_read ''undefined'' ''toLowerCase'')
      | Inr JNull \<Rightarrow> Inl (cannot_read ''null'' ''toLowerCase'')
      | Inr _ \<Rightarrow> Inl ''list.name.toLowerCase is not a function'')"

definition filter_lists :: "(string \<Rightarrow> string) \<Rightarrow> jsval \<Rightarrow> jsval \<Rightarrow> string + jsval" where
  "filter_lists toLowerCase q lists' =
     (case lists' of
        JArr ls \<Rightarrow>
          (case filter_throwing (name_matches toLowerCase q) ls of
             Inl e \<Rightarrow> Inl e
           | Inr ms \<Rightarrow> Inr (JArr (take 5 ms)))
      | JUndefined \<Rightarrow> Inl (cannot_read ''undefined'' ''filter'')
      | JNull \<Rightarrow> Inl (cannot_read ''null'' ''filter'')
      | _ \<Rightarrow> Inl ''lists.filter is not a function'')"

definition search_lists ::
  "(string \<Rightarrow> string) \<Rightarrow> registry \<Rightarrow> network \<Rightarrow> jsval \<Rightarrow> string \<Rightarrow> (string \<times> jsval) list \<Rightarrow>
   (string \<times> jsval) list \<times> axios_config list" where
  "search_lists toLowerCase services net q token results =
     (case fetch services net ''list-service'' (lists_config token) of
        (Inl e, calls) \<Rightarrow> (AList.update ''listsError'' (JStr e) results, calls)
      | (Inr d, calls) \<Rightarrow>
          (case js_prop d ''success'' of
             Inl e \<Rightarrow> (AList.update ''listsError'' (JStr e) results, calls)
           | Inr ok \<Rightarrow>
               if truthy ok
               then (case js_prop d ''data'' of
                       Inl e \<Rightarrow> (AList.update ''listsError'' (JStr e) results, calls)
                     | Inr lists' \<Rightarrow>
                         (case filter_lists toLowerCase q lists' of
                            Inl e \<Rightarrow> (AList.update ''listsError'' (JStr e) results, calls)
                          | Inr matching \<Rightarrow> (AList.update ''lists'' matching results, calls)))
               else (results, calls)))"

text \<open>
  \<open>query_q req\<close> is the \<open>q\<close> that \<open>const { q } = req.query\<close> binds: \<open>undefined\<close> when
  the parameter is absent. \<open>timestamp\<close> is \<open>new Date().toISOString()\<close> at the time of the
  answer. Nothing outside the two inner \<open>try\<close> blocks throws, so the outer \<open>catch\<close> is
  never entered.
\<close>

definition query_q :: "request \<Rightarrow> jsval" where
  "query_q req =
     (case map_of (query req) ''q'' of
        None \<Rightarrow> JUndefined
      | Some q \<Rightarrow> q)"

definition globalSearch ::
  "(jsval \<Rightarrow> string) \<Rightarrow> (string \<Rightarrow> string) \<Rightarrow> registry \<Rightarrow> network \<Rightarrow> string \<Rightarrow> request \<Rightarrow>
   response \<times> axios_config list" where
  "globalSearch encodeURIComponent toLowerCase services net timestamp req =
     (let q = query_q req
      in if \<not> truthy q then
           (\<lparr>status = 400,
             json = JObj [(''success'', JBool False),
               (''message'', JStr (''Par'' @ a_circumflex @ ''metro de busca (q) '' @ e_acute
                  @ '' obrigat'' @ o_acute @ ''rio''))]\<rparr>, [])
         else
           (case search_items encodeURIComponent services net q [] of
              (results1, calls1) \<Rightarrow>
                (case (case bearer req of
                         None \<Rightarrow> (results1, [])
                       | Some token \<Rightarrow> search_lists toLowerCase services net q token results1) of
                   (results2, calls2) \<Rightarrow>
                     (\<lparr>status = 200,
                       json = JObj [(''success'', JBool True), (''data'', JObj results2),
                         (''search'', JObj [(''query'', q), (''timestamp'', JStr timestamp)])]\<rparr>,
                      calls1 @ calls2))))"


section \<open>Sequences of gateway operations\<close>

text \<open>
  The two operations that write the breaker table, as data: a proxied call and an
  invocation of the health-check endpoint, each with everything it reads from its
  environment. The registry an operation sees is a JavaScript object, so its keys are
  unique.
\<close>

datatype gateway_op =
    ProxyCall "string \<Rightarrow> string option" registry network string int int request
  | HealthCheck "string \<Rightarrow> axios_config \<Rightarrow> axios_result" "string \<Rightarrow> int" registry

fun apply_gateway_op :: "breakers \<Rightarrow> gateway_op \<Rightarrow> breakers" where
  "apply_gateway_op cbs (ProxyCall url_host services net serviceName now1 now2 req) =
     fst (proxyToService url_host services net serviceName now1 now2 req cbs)"
| "apply_gateway_op cbs (HealthCheck probe clock services) =
     fst (healthCheck probe clock services cbs)"

fun wf_gateway_op :: "gateway_op \<Rightarrow> bool" where
  "wf_gateway_op (ProxyCall url_host services net serviceName now1 now2 req) = True"
| "wf_gateway_op (HealthCheck probe clock services) = wf_registry services"

fun is_health_check :: "gateway_op \<Rightarrow> bool" where
  "is_health_check (HealthCheck probe clock services) = True"
| "is_health_check _ = False"

definition run_gateway_ops :: "breakers \<Rightarrow> gateway_op list \<Rightarrow> breakers" where
  "run_gateway_ops = foldl apply_gateway_op"

section \<open>Sequences of registry operations\<close>

text \<open>
  The operations of the registry as data, to speak about sequences of calls. An operation
  revives a name when it can set the healthy flag of that name: a registration of the
  name, or \<open>updateHealth\<close> with \<open>true\<close>. A sequence has a result as long as none of
  its operations writes through \<open>__proto__\<close>.
\<close>

datatype reg_op =
    Register string service_info int int
  | Unregister string
  | UpdateHealth string bool int
  | Cleanup int

fun apply_reg_op :: "registry \<Rightarrow> reg_op \<Rightarrow> registry option" where
  "apply_reg_op services (Register n i ta tb) = fst (register services n i ta tb)"
| "apply_reg_op services (Unregister n) = Some (fst (unregister services n))"
| "apply_reg_op services (UpdateHealth n h t) = fst (updateHealth services n h t)"
| "apply_reg_op services (Cleanup t) = Some (fst (cleanup services t))"



fun run_reg_ops :: "registry \<Rightarrow> reg_op list \<Rightarrow> registry option" where
  "run_reg_ops services [] = Some services"
| "run_reg_ops services (op # ops) =
     (case apply_reg_op services op of
        None \<Rightarrow> None
      | Some services' \<Rightarrow> run_reg_ops services' ops)"


section \<open>Example data\<close>

text \<open>
  Concrete registries, requests, breaker tables and networks on which the properties below
  are evaluated. \<open>demo_url_host\<close> reads the host of an \<open>http\<close> URL with an explicit port,
  and \<open>ascii_lower\<close> is \<open>toLowerCase\<close> on ASCII text.
\<close>

definition empty_registry :: registry where
  "empty_registry = \<lparr>stored = [], member_healthy = []\<rparr>"

definition demo_registry :: registry where
  "demo_registry =
     \<lparr>stored =
        [(''user-service'', \<lparr>url = ''http://localhost:3001'', meta = [],
            registeredAt = 0, lastHealthCheck = 0, healthy = True\<rparr>),
         (''item-service'', \<lparr>url = ''http://localhost:3002'', meta = [],
            registeredAt = 0, lastHealthCheck = 2000, healthy = True\<rparr>)],
      member_healthy = []\<rparr>"


definition demo_url_host :: "string \<Rightarrow> string option" where
  "demo_url_host u =
     (if startsWith u ''http://''
      then Some (takeWhile (\<lambda>c. c \<noteq> CHR ''/'') (drop 7 u))
      else None)"

definition demo_request :: request where
  "demo_request =
     \<lparr>httpMethod = ''GET'', originalUrl = ''/api/users/123'',
      headers = [(''host'', ''localhost:3000''), (''accept'', ''*/*'')],
      body = JObj [], query = []\<rparr>"

definition user_service :: service where
  "user_service = \<lparr>url = ''http://localhost:3001'', meta = [],
         registeredAt = 0, lastHealthCheck = 0, healthy = True\<rparr>"

definition net_down :: network where
  "net_down c = Rejected ''connect ECONNREFUSED'' None"

definition net_404 :: network where
  "net_404 c = Rejected ''Request failed with status code 404''
     (Some (404, JObj [(''success'', JBool False), (''message'', JStr ''not found'')]))"

definition net_ok :: network where
  "net_ok c = Resolved 200 (JObj [(''success'', JBool True)])"

definition open_breakers :: breakers where
  "open_breakers = [''user-service'' \<mapsto> \<lparr>failures = 3, state = OPEN, lastFailure = 1000\<rparr>]"



definition probe_ok :: "string \<Rightarrow> axios_config \<Rightarrow> axios_result" where
  "probe_ok serviceName c = Resolved 200 (JObj [(''status'', JStr ''healthy'')])"

definition probe_down :: "string \<Rightarrow> axios_config \<Rightarrow> axios_result" where
  "probe_down serviceName c = Rejected ''timeout of 3000ms exceeded'' None"

definition two_failures :: "gateway_op list" where
  "two_failures =
     [ProxyCall demo_url_host demo_registry net_down ''user-service'' 10 11 demo_request,
      ProxyCall demo_url_host demo_registry net_down ''user-service'' 20 21 demo_request]"

definition three_failures :: "gateway_op list" where
  "three_failures = two_failures @
     [ProxyCall demo_url_host demo_registry net_down ''user-service'' 30 31 demo_request]"

definition item_service :: service where
  "item_service = \<lparr>url = ''http://localhost:3002'', meta = [],
         registeredAt = 0, lastHealthCheck = 2000, healthy = True\<rparr>"

definition list_service :: service where
  "list_service = \<lparr>url = ''http://localhost:3003'', meta = [],
         registeredAt = 0, lastHealthCheck = 2000, healthy = True\<rparr>"

definition full_registry :: registry where
  "full_registry =
     demo_registry\<lparr>stored := stored demo_registry @ [(''list-service'', list_service)]\<rparr>"

definition ascii_lower :: "string \<Rightarrow> string" where
  "ascii_lower s =
     map (\<lambda>c. case map_of (zip ''ABCDEFGHIJKLMNOPQRSTUVWXYZ'' ''abcdefghijklmnopqrstuvwxyz'') c of
                 Some l \<Rightarrow> l
               | None \<Rightarrow> c) s"

definition dashboard_request :: request where
  "dashboard_request =
     \<lparr>httpMethod = ''GET'', originalUrl = ''/api/dashboard'',
      headers = [(''host'', ''localhost:3000''), (''authorization'', ''Bearer abc'')],
      body = JObj [], query = []\<rparr>"

definition search_request :: request where
  "search_request =
     \<lparr>httpMethod = ''GET'', originalUrl = ''/api/search?q=milk'',
      headers = [(''host'', ''localhost:3000'')],
      body = JObj [], query = [(''q'', JStr ''milk'')]\<rparr>"

definition search_request_auth :: request where
  "search_request_auth =
     search_request\<lparr>headers := [(''host'', ''localhost:3000''), (''authorization'', ''Bearer abc'')]\<rparr>"

definition demo_user :: jsval where
  "demo_user =
     JObj [(''id'', JStr ''u1''), (''email'', JStr ''ana@example.com''), (''username'', JStr ''ana''),
       (''firstName'', JStr ''Ana''), (''lastName'', JStr ''Silva''),
       (''preferences'', JObj [(''currency'', JStr ''BRL'')])]"

definition user_data :: jsval where
  "user_data = JObj [(''success'', JBool True), (''data'', JObj [(''user'', demo_user)])]"

text \<open>The projections of the user and of the two lists that the dashboard sends.\<close>

definition user_card :: jsval where
  "user_card =
     JObj [(''id'', JStr ''u1''), (''username'', JStr ''ana''), (''firstName'', JStr ''Ana''),
       (''lastName'', JStr ''Silva''), (''preferences'', JObj [(''currency'', JStr ''BRL'')])]"

definition milk_run_card :: jsval where
  "milk_run_card =
     JObj [(''id'', JStr ''l1''), (''name'', JStr ''Milk run''), (''status'', JStr ''active''),
       (''itemCount'', JNum 3), (''purchasedCount'', JNum 1), (''estimatedTotal'', JNum 12.5),
       (''updatedAt'', JStr ''2026-01-01T00:00:00.000Z'')]"

definition tools_card :: jsval where
  "tools_card =
     JObj [(''id'', JStr ''l2''), (''name'', JStr ''Tools''), (''status'', JStr ''completed''),
       (''itemCount'', JNum 2), (''purchasedCount'', JNum 2), (''estimatedTotal'', JNum 30),
       (''updatedAt'', JStr ''2026-01-02T00:00:00.000Z'')]"

definition milk_run :: jsval where
  "milk_run =
     JObj [(''id'', JStr ''l1''), (''name'', JStr ''Milk run''), (''status'', JStr ''active''),
       (''summary'', JObj [(''totalItems'', JNum 3), (''purchasedItems'', JNum 1),
          (''estimatedTotal'', JNum 12.5)]),
       (''updatedAt'', JStr ''2026-01-01T00:00:00.000Z'')]"

definition tools :: jsval where
  "tools =
     JObj [(''id'', JStr ''l2''), (''name'', JStr ''Tools''), (''status'', JStr ''completed''),
       (''summary'', JObj [(''totalItems'', JNum 2), (''purchasedItems'', JNum 2),
          (''estimatedTotal'', JNum 30)]),
       (''updatedAt'', JStr ''2026-01-02T00:00:00.000Z'')]"

definition lists_data :: jsval where
  "lists_data = JObj [(''success'', JBool True), (''data'', JArr [milk_run, tools])]"

definition items_data :: jsval where
  "items_data = JObj [(''success'', JBool True), (''pagination'', JObj [(''total'', JNum 7)])]"

definition found_data :: jsval where
  "found_data = JObj [(''success'', JBool True), (''data'', JArr [JObj [(''name'', JStr ''Milk 1L'')]])]"

definition all_up_net :: network where
  "all_up_net c =
     (if cfg_url c = ''http://localhost:3001/auth/validate'' then Resolved 200 user_data
      else if cfg_url c = ''http://localhost:3003/lists'' then Resolved 200 lists_data
      else if cfg_url c = ''http://localhost:3002/items?active=true&limit=1'' then Resolved 200 items_data
      else if cfg_url c = ''http://localhost:3002/search?q=milk&limit=10'' then Resolved 200 found_data
      else Rejected ''Request failed with status code 404'' (Some (404, JNull)))"

definition items_down_net :: network where
  "items_down_net c =
     (if startsWith (cfg_url c) ''http://localhost:3002''
      then Rejected ''timeout of 5000ms exceeded'' None
      else all_up_net c)"

text \<open>
  The two operations on numbers, on the values of the example: the sum of two finite
  numbers whose floating-point sum is exact, and \<open>parseFloat(v.toFixed(2))\<close> on a number
  that has at most two decimals, which it leaves as it is. The example applies them to no
  other value; there \<open>plus_numbers\<close> answers as \<open>+\<close> does on a number and \<open>undefined\<close>.
\<close>

definition plus_numbers :: "jsval \<Rightarrow> jsval \<Rightarrow> string + jsval" where
  "plus_numbers a b =
     (case a of
        JNum x \<Rightarrow> (case b of JNum y \<Rightarrow> Inr (JNum (x + y)) | _ \<Rightarrow> Inr JNaN)
      | _ \<Rightarrow> Inr JNaN)"

definition fixed_numbers :: "jsval \<Rightarrow> string + jsval" where
  "fixed_numbers v =
     (case v of
        JNum x \<Rightarrow> Inr (JNum x)
      | JNaN \<Rightarrow> Inr JNaN
      | JInfinity \<Rightarrow> Inr JInfinity
      | JMinusInfinity \<Rightarrow> Inr JMinusInfinity
      | _ \<Rightarrow> Inl ''totalEstimated.toFixed is not a function'')"

text \<open>
  \<open>encodeURIComponent\<close> on the queries of the example: a string of unreserved characters
  is left as it is, and an array of such strings is joined with commas, which are encoded.
\<close>

fun join_encoded :: "string list \<Rightarrow> string" where
  "join_encoded [] = []"
| "join_encoded [s] = s"
| "join_encoded (s # rest) = s @ ''%2C'' @ join_encoded rest"

definition demo_encode :: "jsval \<Rightarrow> string" where
  "demo_encode q =
     (case q of
        JStr s \<Rightarrow> s
      | JArr vs \<Rightarrow> join_encoded (map (\<lambda>v. case v of JStr s \<Rightarrow> s | _ \<Rightarrow> []) vs)
      | _ \<Rightarrow> ''%5Bobject%20Object%5D'')"

text \<open>
  A list backend and an item backend that answer 200 with a falsy \<open>success\<close> flag, and a
  search request whose parameter \<open>q\<close> is repeated.
\<close>

definition refused :: jsval where
  "refused = JObj [(''success'', JBool False), (''message'', JStr ''try again later'')]"

definition lists_refused_net :: network where
  "lists_refused_net c =
     (if cfg_url c = ''http://localhost:3003/lists'' then Resolved 200 refused
      else all_up_net c)"

definition items_refused_net :: network where
  "items_refused_net c =
     (if startsWith (cfg_url c) ''http://localhost:3002'' then Resolved 200 refused
      else all_up_net c)"

definition search_request_repeated :: request where
  "search_request_repeated =
     \<lparr>httpMethod = ''GET'', originalUrl = ''/api/search?q=milk&q=run'',
      headers = [(''host'', ''localhost:3000''), (''authorization'', ''Bearer abc'')],
      body = JObj [], query = [(''q'', JArr [JStr ''milk'', JStr ''run''])]\<rparr>"

section \<open>Properties of the registry\<close>

lemma stale_iff: "real_of_int d / (1000 * 60) > 2 \<longleftrightarrow> d > 120000"
proof -
  have "real_of_int d / (1000 * 60) > 2 \<longleftrightarrow> real_of_int d > 120000"
    by (simp add: field_simps)
  also have "\<dots> \<longleftrightarrow> d > 120000"
    by linarith
  finally show ?thesis .
qed

lemma cleanup_loop_sub:
  "map_of (fst (cleanup_loop now es (services, c))) n = Some s \<Longrightarrow> map_of services n = Some s"
proof (induction es arbitrary: services c)
  case Nil
  then show ?case by simp
next
  case (Cons e es)
  obtain k v where e: "e = (k, v)" by (cases e)
  show ?case
  proof (cases "real_of_int (now - lastHealthCheck v) / (1000 * 60) > 2")
    case True
    with Cons.prems e have "map_of (fst (cleanup_loop now es (AList.delete k services, True))) n = Some s"
      by simp
    then have "map_of (AList.delete k services) n = Some s" by (rule Cons.IH)
    then show ?thesis by (simp add: delete_conv' split: if_splits)
  next
    case False
    with Cons.prems e have "map_of (fst (cleanup_loop now es (services, c))) n = Some s"
      by simp
    then show ?thesis by (rule Cons.IH)
  qed
qed

lemma cleanup_loop_removed:
  "(n, s) \<in> set es \<Longrightarrow> now - lastHealthCheck s > 120000 \<Longrightarrow>
   map_of (fst (cleanup_loop now es (services, c))) n = None"
proof (induction es arbitrary: services c)
  case Nil
  then show ?case by simp
next
  case (Cons e es)
  obtain k v where e: "e = (k, v)" by (cases e)
  have gone: "map_of (fst (cleanup_loop now es (AList.delete n sv, c'))) n = None" for sv c'
  proof (cases "map_of (fst (cleanup_loop now es (AList.delete n sv, c'))) n")
    case None then show ?thesis .
  next
    case (Some a)
    then have "map_of (AList.delete n sv) n = Some a" by (rule cleanup_loop_sub)
    then show ?thesis by (simp add: delete_conv')
  qed
  show ?case
  proof (cases "(n, s) = e")
    case True
    with e Cons.prems have "real_of_int (now - lastHealthCheck v) / (1000 * 60) > 2" "k = n"
      by (auto simp: stale_iff)
    then show ?thesis using e gone by simp
  next
    case False
    with Cons.prems have "(n, s) \<in> set es" by simp
    then show ?thesis using Cons.IH Cons.prems(2) e by (simp add: Let_def)
  qed
qed

lemma cleanup_loop_kept:
  "map_of services n = Some s \<Longrightarrow>
   \<forall>s'. (n, s') \<in> set es \<longrightarrow> \<not> now - lastHealthCheck s' > 120000 \<Longrightarrow>
   map_of (fst (cleanup_loop now es (services, c))) n = Some s"
proof (induction es arbitrary: services c)
  case Nil
  then show ?case by simp
next
  case (Cons e es)
  obtain k v where e: "e = (k, v)" by (cases e)
  show ?case
  proof (cases "real_of_int (now - lastHealthCheck v) / (1000 * 60) > 2")
    case True
    then have "k \<noteq> n" using Cons.prems(2) e by (auto simp: stale_iff)
    then have "map_of (AList.delete k services) n = Some s" using Cons.prems(1) by simp
    then have "map_of (fst (cleanup_loop now es (AList.delete k services, True))) n = Some s"
      using Cons.prems(2) by (intro Cons.IH) auto
    then show ?thesis using True e by simp
  next
    case False
    have "map_of (fst (cleanup_loop now es (services, c))) n = Some s"
      using Cons.prems by (intro Cons.IH) auto
    then show ?thesis using False e by simp
  qed
qed

lemma cleanup_stored:
  "stored (fst (cleanup services now)) =
   fst (cleanup_loop now (stored services) (stored services, False))"
  by (simp add: cleanup_def split_beta)

lemma cleanup_lookup:
  assumes "wf_registry services"
  shows "map_of (stored (fst (cleanup services now))) n =
     (case map_of (stored services) n of
        None \<Rightarrow> None
      | Some s \<Rightarrow> if now - lastHealthCheck s > 120000 then None else Some s)"
proof (cases "map_of (stored services) n")
  case None
  have "map_of (stored (fst (cleanup services now))) n = None"
  proof (cases "map_of (stored (fst (cleanup services now))) n")
    case None then show ?thesis .
  next
    case (Some a)
    then have "map_of (stored services) n = Some a"
      unfolding cleanup_stored by (rule cleanup_loop_sub)
    with None show ?thesis by simp
  qed
  with None show ?thesis by simp
next
  case (Some s)
  then have mem: "(n, s) \<in> set (stored services)" by (rule map_of_SomeD)
  have uniq: "s' = s" if "(n, s') \<in> set (stored services)" for s'
    using assms that mem unfolding wf_registry_def by (meson eq_key_imp_eq_value)
  show ?thesis
  proof (cases "now - lastHealthCheck s > 120000")
    case True
    then show ?thesis using Some mem by (simp add: cleanup_stored cleanup_loop_removed)
  next
    case False
    have "map_of (fst (cleanup_loop now (stored services) (stored services, False))) n = Some s"
      using Some False uniq by (intro cleanup_loop_kept) auto
    then show ?thesis using Some False by (simp add: cleanup_stored)
  qed
qed







lemma cleanup_loop_distinct:
  "distinct (map fst services) \<Longrightarrow> distinct (map fst (fst (cleanup_loop now es (services, c))))"
proof (induction es arbitrary: services c)
  case Nil
  then show ?case by simp
next
  case (Cons e es)
  obtain k v where e: "e = (k, v)" by (cases e)
  have "distinct (map fst (AList.delete k services))"
    using Cons.prems by (simp add: distinct_delete)
  then have "distinct (map fst (fst (cleanup_loop now es (AList.delete k services, True))))"
    by (rule Cons.IH)
  moreover have "distinct (map fst (fst (cleanup_loop now es (services, c))))"
    using Cons.prems by (rule Cons.IH)
  ultimately show ?case using e by (simp add: Let_def)
qed

lemma wf_registry_apply_reg_op:
  assumes "wf_registry services" and "apply_reg_op services op = Some services'"
  shows "wf_registry services'"
proof (cases op)
  case (Register n i ta tb)
  with assms show ?thesis
    by (auto simp: wf_registry_def register_def distinct_update split: if_splits)
next
  case (Unregister n)
  with assms show ?thesis
    by (auto simp: wf_registry_def unregister_def distinct_delete split: option.splits)
next
  case (UpdateHealth n h t)
  with assms show ?thesis
    by (auto simp: wf_registry_def updateHealth_def distinct_update
        split: option.splits found.splits)
next
  case (Cleanup t)
  with assms show ?thesis
    by (auto simp: wf_registry_def cleanup_stored cleanup_loop_distinct)
qed

lemma wf_registry_run:
  "wf_registry services \<Longrightarrow> run_reg_ops services ops = Some services' \<Longrightarrow> wf_registry services'"
proof (induction ops arbitrary: services)
  case Nil
  then show ?case by simp
next
  case (Cons op ops)
  from Cons.prems(2) obtain mid where step: "apply_reg_op services op = Some mid"
    and rest: "run_reg_ops mid ops = Some services'"
    by (auto split: option.splits)
  from Cons.prems(1) step have "wf_registry mid" by (rule wf_registry_apply_reg_op)
  then show ?case using rest by (rule Cons.IH)
qed

text \<open>
  The members inherited from \<open>Object.prototype\<close> are found by the lookup although nothing
  was registered under their names: on an empty registry \<open>unregister\<close> answers \<open>true\<close> for
  \<open>constructor\<close>, and after \<open>updateHealth\<close> has written the flag on the function
  \<open>valueOf\<close>, \<open>discover\<close> returns that function.
\<close>

lemma inherited_member_is_found:
  "unregister empty_registry ''constructor'' = (empty_registry, True)"
  "discover empty_registry ''valueOf'' = None"
  "updateHealth empty_registry ''valueOf'' True 5 =
     (Some \<lparr>stored = [], member_healthy = [(''valueOf'', True)]\<rparr>, True)"
  "discover \<lparr>stored = [], member_healthy = [(''valueOf'', True)]\<rparr> ''valueOf'' =
     Some (Member ''valueOf'')"
  by (simp_all add: unregister_def discover_def updateHealth_def services_at_def
      empty_registry_def object_members_def)



text \<open>
  Claim C9. The sweep removes exactly the records whose last health check is more than two
  minutes (120000 ms) old: the lookup after \<open>cleanup\<close> is the lookup before, minus the stale
  records. A record 2 minutes and 1 second old (121000 ms) is removed; one that is 1 minute
  59 seconds old (119000 ms) is kept.
\<close>

theorem cleanup_reaps_stale_records:
  assumes "wf_registry services"
  shows "map_of (stored (fst (cleanup services now))) n =
           (case map_of (stored services) n of
              None \<Rightarrow> None
            | Some r \<Rightarrow> if now - lastHealthCheck r > 120000 then None else Some r)
         \<and> (map_of (stored services) n = Some s \<and> now - lastHealthCheck s = 121000 \<longrightarrow>
              map_of (stored (fst (cleanup services now))) n = None)
         \<and> (map_of (stored services) n = Some s \<and> now - lastHealthCheck s = 119000 \<longrightarrow>
              map_of (stored (fst (cleanup services now))) n = Some s)"
  using cleanup_lookup [OF assms, of now n] by auto

theorem cleanup_reaps_stale_records_witness:
  "wf_registry demo_registry
   \<and> map_of (stored (fst (cleanup demo_registry 121000))) ''user-service'' = None
   \<and> map_of (stored (fst (cleanup demo_registry 121000))) ''item-service'' =
       Some \<lparr>url = ''http://localhost:3002'', meta = [],
         registeredAt = 0, lastHealthCheck = 2000, healthy = True\<rparr>"
proof -
  have wf: "wf_registry demo_registry"
    by (simp add: wf_registry_def demo_registry_def)
  show ?thesis
    using wf
      cleanup_reaps_stale_records [OF wf, of 121000 "''user-service''"
        "\<lparr>url = ''http://localhost:3001'', meta = [],
         registeredAt = 0, lastHealthCheck = 0, healthy = True\<rparr>"]
      cleanup_reaps_stale_records [OF wf, of 121000 "''item-service''"
        "\<lparr>url = ''http://localhost:3002'', meta = [],
         registeredAt = 0, lastHealthCheck = 2000, healthy = True\<rparr>"]
    by (simp add: demo_registry_def)
qed




section \<open>Properties of the circuit breakers\<close>

lemma health_on_success_other:
  "n \<noteq> serviceName \<Longrightarrow> health_on_success serviceName cbs n = cbs n"
  by (simp add: health_on_success_def split: option.splits)

lemma health_on_error_other:
  "n \<noteq> serviceName \<Longrightarrow> health_on_error serviceName now cbs n = cbs n"
  by (simp add: health_on_error_def Let_def split: option.splits)

lemma health_on_success_same:
  "cbs' n = cbs n \<Longrightarrow> health_on_success n cbs' n = health_on_success n cbs n"
  by (simp add: health_on_success_def split: option.splits)

lemma health_on_error_same:
  "cbs' n = cbs n \<Longrightarrow> health_on_error n now cbs' n = health_on_error n now cbs n"
  by (simp add: health_on_error_def Let_def split: option.splits)

lemma healthCheck_loop_other:
  "n \<notin> fst ` set entries \<Longrightarrow>
   fst (healthCheck_loop probe clock entries (cbs, hr)) n = cbs n"
proof (induction entries arbitrary: cbs hr)
  case Nil
  then show ?case by simp
next
  case (Cons e entries)
  obtain k v where e: "e = (k, v)" by (cases e)
  from Cons.prems e have ne: "n \<noteq> k" and rest: "n \<notin> fst ` set entries" by auto
  show ?case
  proof (cases "probe k (health_config (url v))")
    case (Resolved st d)
    then show ?thesis
      using e Cons.IH [OF rest] ne by (simp add: health_on_success_other)
  next
    case (Rejected m r)
    then show ?thesis
      using e Cons.IH [OF rest] ne by (simp add: health_on_error_other)
  qed
qed

text \<open>The effect of one probe on the breaker of the probed service.\<close>

lemma healthCheck_loop_probed:
  assumes "distinct (map fst entries)" and "(n, v) \<in> set entries"
  shows "fst (healthCheck_loop probe clock entries (cbs, hr)) n =
           (case probe n (health_config (url v)) of
              Resolved st d \<Rightarrow> health_on_success n cbs n
            | Rejected m r \<Rightarrow> health_on_error n (clock n) cbs n)"
  using assms
proof (induction entries arbitrary: cbs hr)
  case Nil
  then show ?case by simp
next
  case (Cons e entries)
  obtain k w where e: "e = (k, w)" by (cases e)
  show ?case
  proof (cases "k = n")
    case True
    with Cons.prems e have notin: "n \<notin> fst ` set entries" by auto
    have "w = v"
    proof (rule ccontr)
      assume "w \<noteq> v"
      with Cons.prems(2) e True have "(n, v) \<in> set entries" by auto
      with notin show False by force
    qed
    with True e notin show ?thesis
      by (cases "probe n (health_config (url v))")
         (simp_all add: healthCheck_loop_other)
  next
    case False
    with Cons.prems e have mem: "(n, v) \<in> set entries" and d: "distinct (map fst entries)"
      by auto
    show ?thesis
    proof (cases "probe k (health_config (url w))")
      case (Resolved st d')
      have eq: "health_on_success k cbs n = cbs n"
        using False by (simp add: health_on_success_other)
      have "fst (healthCheck_loop probe clock (e # entries) (cbs, hr)) n =
            fst (healthCheck_loop probe clock entries
              (health_on_success k cbs, AList.update k (Healthy d') hr)) n"
        using e Resolved by simp
      also have "\<dots> = (case probe n (health_config (url v)) of
              Resolved st d \<Rightarrow> health_on_success n (health_on_success k cbs) n
            | Rejected m r \<Rightarrow> health_on_error n (clock n) (health_on_success k cbs) n)"
        by (rule Cons.IH [OF d mem])
      also have "\<dots> = (case probe n (health_config (url v)) of
              Resolved st d \<Rightarrow> health_on_success n cbs n
            | Rejected m r \<Rightarrow> health_on_error n (clock n) cbs n)"
        by (simp add: health_on_success_same [of "health_on_success k cbs" n cbs, OF eq]
              health_on_error_same [of "health_on_success k cbs" n cbs, OF eq]
            split: axios_result.splits)
      finally show ?thesis .
    next
      case (Rejected m r)
      have eq: "health_on_error k (clock k) cbs n = cbs n"
        using False by (simp add: health_on_error_other)
      have "fst (healthCheck_loop probe clock (e # entries) (cbs, hr)) n =
            fst (healthCheck_loop probe clock entries
              (health_on_error k (clock k) cbs, AList.update k (Unhealthy m) hr)) n"
        using e Rejected by simp
      also have "\<dots> = (case probe n (health_config (url v)) of
              Resolved st d \<Rightarrow> health_on_success n (health_on_error k (clock k) cbs) n
            | Rejected m r \<Rightarrow>
                health_on_error n (clock n) (health_on_error k (clock k) cbs) n)"
        by (rule Cons.IH [OF d mem])
      also have "\<dots> = (case probe n (health_config (url v)) of
              Resolved st d \<Rightarrow> health_on_success n cbs n
            | Rejected m r \<Rightarrow> health_on_error n (clock n) cbs n)"
        by (simp add: health_on_success_same [of "health_on_error k (clock k) cbs" n cbs, OF eq]
              health_on_error_same [of "health_on_error k (clock k) cbs" n cbs, OF eq]
            split: axios_result.splits)
      finally show ?thesis .
    qed
  qed
qed

lemma healthCheck_breaker:
  assumes "wf_registry services" and "map_of (stored services) n = Some v"
  shows "fst (healthCheck probe clock services cbs) n =
           (case probe n (health_config (url v)) of
              Resolved st d \<Rightarrow> health_on_success n cbs n
            | Rejected m r \<Rightarrow> health_on_error n (clock n) cbs n)"
proof -
  from assms(2) have mem: "(n, v) \<in> set (stored services)" by (rule map_of_SomeD)
  have "fst (healthCheck probe clock services cbs) n =
        fst (healthCheck_loop probe clock (stored services) (cbs, [])) n"
    by (simp add: healthCheck_def getAllServices_def Let_def split_beta)
  then show ?thesis
    using healthCheck_loop_probed [OF _ mem, of probe clock cbs "[]"] assms(1)
    by (simp add: wf_registry_def)
qed

lemma healthCheck_breaker_unregistered:
  assumes "map_of (stored services) n = None"
  shows "fst (healthCheck probe clock services cbs) n = cbs n"
proof -
  from assms have "n \<notin> fst ` set (stored services)" by (simp add: map_of_eq_None_iff)
  then have "fst (healthCheck_loop probe clock (stored services) (cbs, [])) n = cbs n"
    by (rule healthCheck_loop_other)
  then show ?thesis
    by (simp add: healthCheck_def getAllServices_def Let_def split_beta)
qed

text \<open>
  Claim C10. For a registered service that has a breaker entry, one invocation of the
  health-check endpoint rewrites that breaker from the outcome of the probe of that
  service. A successful probe sets the state to CLOSED and the counter to zero whatever
  the state was, so an OPEN breaker is closed without any trial on the proxy path. A
  failed probe increments the counter, sets the last-failure timestamp, and sets the
  state to OPEN once the counter has reached three.
\<close>

theorem healthCheck_mutates_breaker:
  assumes "wf_registry services"
    and "map_of (stored services) name = Some serviceInfo"
    and "cbs name = Some cb"
  shows "(\<forall>st d. probe name (health_config (url serviceInfo)) = Resolved st d \<longrightarrow>
            fst (healthCheck probe clock services cbs) name =
              Some (cb\<lparr>failures := 0, state := CLOSED\<rparr>))
       \<and> (\<forall>m r. probe name (health_config (url serviceInfo)) = Rejected m r \<longrightarrow>
            fst (healthCheck probe clock services cbs) name =
              Some (cb\<lparr>failures := failures cb + 1, lastFailure := clock name,
                       state := (if failures cb + 1 \<ge> 3 then OPEN else state cb)\<rparr>))"
  using healthCheck_breaker [OF assms(1,2), of probe clock cbs] assms(3)
  by (auto simp: health_on_success_def health_on_error_def Let_def)

lemma proxy_check_breaker_cases:
  assumes "cbs serviceName = Some cb"
  shows "proxy_check_breaker serviceName now cbs =
           (if state cb = OPEN \<and> \<not> now - lastFailure cb > 30000
            then Inl \<lparr>status = 503,
                   json = JObj [(''success'', JBool False),
                     (''message'', JStr (''Servi'' @ c_cedilla @ ''o '' @ serviceName
                        @ '' temporariamente indispon'' @ i_acute @ ''vel'')),
                     (''circuitBreaker'', JStr ''OPEN'')]\<rparr>
            else if state cb = OPEN then Inr (cbs(serviceName \<mapsto> cb\<lparr>state := HALF_OPEN\<rparr>))
            else Inr cbs)"
  using assms by (simp add: proxy_check_breaker_def Let_def)

lemma proxy_breaker_dispatched:
  assumes "cbs serviceName = Some cb"
    and "discover services serviceName = Some service"
    and "url_host (found_url service) = Some host"
    and "\<not> (state cb = OPEN \<and> t - lastFailure cb \<le> 30000)"
  shows "proxyToService url_host services net serviceName t t' req cbs =
     (case net (proxy_config service serviceName host req) of
        Resolved st d \<Rightarrow>
          (proxy_on_success serviceName (cbs(serviceName \<mapsto> after_gate cb)),
           \<lparr>status = st, json = d\<rparr>, [proxy_config service serviceName host req])
      | Rejected m r \<Rightarrow>
          (proxy_on_error serviceName t' (cbs(serviceName \<mapsto> after_gate cb)),
           error_response serviceName m r, [proxy_config service serviceName host req]))"
proof -
  have gate: "proxy_check_breaker serviceName t cbs = Inr (cbs(serviceName \<mapsto> after_gate cb))"
    using assms(1,4) by (auto simp: proxy_check_breaker_cases after_gate_def fun_upd_idem)
  show ?thesis
    by (simp add: proxyToService_def gate assms(2,3) Let_def)
qed

lemma proxy_breaker_rejected:
  assumes "cbs serviceName = Some cb"
    and "state cb = OPEN" and "t - lastFailure cb \<le> 30000"
  shows "fst (proxyToService url_host services net serviceName t t' req cbs) = cbs"
    and "status (fst (snd (proxyToService url_host services net serviceName t t' req cbs))) = 503"
    and "snd (snd (proxyToService url_host services net serviceName t t' req cbs)) = []"
  using assms by (simp_all add: proxyToService_def proxy_check_breaker_cases)

lemma proxy_on_error_apply:
  "proxy_on_error serviceName now (cbs(serviceName \<mapsto> cb)) serviceName =
     Some (cb\<lparr>failures := failures cb + 1, lastFailure := now,
              state := (if failures cb + 1 \<ge> 3 \<or> state cb = HALF_OPEN then OPEN else state cb)\<rparr>)"
  by (simp add: proxy_on_error_def Let_def)

lemma proxy_on_success_apply:
  "proxy_on_success serviceName (cbs(serviceName \<mapsto> cb)) serviceName =
     Some (if state cb = HALF_OPEN then cb\<lparr>state := CLOSED, failures := 0\<rparr> else cb)"
  by (simp add: proxy_on_success_def)

lemma proxy_failed_call:
  assumes "cbs serviceName = Some cb"
    and "discover services serviceName = Some service"
    and "url_host (found_url service) = Some host"
    and "\<forall>c. \<exists>m r. net c = Rejected m r"
  shows "\<exists>cb'. fst (proxyToService url_host services net serviceName t t' req cbs) serviceName = Some cb'
           \<and> (state cb \<noteq> CLOSED \<longrightarrow> state cb' = OPEN)
           \<and> (state cb = CLOSED \<longrightarrow>
                cb' = cb\<lparr>failures := failures cb + 1, lastFailure := t',
                        state := (if failures cb + 1 \<ge> 3 then OPEN else CLOSED)\<rparr>)"
proof (cases "state cb = OPEN \<and> t - lastFailure cb \<le> 30000")
  case True
  then have "fst (proxyToService url_host services net serviceName t t' req cbs) = cbs"
    using assms(1) by (intro proxy_breaker_rejected(1)) auto
  with True assms(1) show ?thesis
    by simp
next
  case False
  obtain m r where rej: "net (proxy_config service serviceName host req) = Rejected m r"
    using assms(4) by blast
  have "proxyToService url_host services net serviceName t t' req cbs =
     (proxy_on_error serviceName t' (cbs(serviceName \<mapsto> after_gate cb)),
      error_response serviceName m r, [proxy_config service serviceName host req])"
    using proxy_breaker_dispatched [of cbs serviceName cb services service url_host host t net t' req]
      assms(1-3) False rej
    by simp
  then show ?thesis
    by (cases "state cb") (auto simp: proxy_on_error_apply after_gate_def)
qed








lemma proxy_other_breakers:
  "n \<noteq> serviceName \<Longrightarrow>
   fst (proxyToService url_host services net serviceName t t' req cbs) n = cbs n"
  by (auto simp: proxyToService_def proxy_check_breaker_def proxy_on_success_def
        proxy_on_error_def Let_def
      split: option.splits sum.splits if_splits axios_result.splits)

lemma proxy_discovery_miss:
  assumes "discover services serviceName = None"
  shows "status (fst (snd (proxyToService url_host services net serviceName t t' req cbs))) = 503"
    and "snd (snd (proxyToService url_host services net serviceName t t' req cbs)) = []"
  using assms
  by (auto simp: proxyToService_def proxy_check_breaker_def Let_def
      split: option.splits sum.splits if_splits)



text \<open>
  Claim C4, amended. For a proxied request that is dispatched: a downstream HTTP error
  response is relayed with its status and body as they are, and the breaker records a
  failure (counter incremented, timestamp set) for it, exactly as it does for a network
  failure or timeout, which is answered with a synthesized 503 carrying the message of
  the error. A call that resolves records no failure.
\<close>

theorem proxy_relays_error_and_records_failure:
  assumes "cbs serviceName = Some cb"
    and "\<not> (state cb = OPEN \<and> t - lastFailure cb \<le> 30000)"
    and "discover services serviceName = Some service"
    and "url_host (found_url service) = Some host"
  shows "(\<forall>m st d. net (proxy_config service serviceName host req) = Rejected m (Some (st, d)) \<longrightarrow>
            fst (snd (proxyToService url_host services net serviceName t t' req cbs)) =
              \<lparr>status = st, json = d\<rparr>
            \<and> (\<exists>cb'. fst (proxyToService url_host services net serviceName t t' req cbs) serviceName
                    = Some cb'
                  \<and> failures cb' = failures cb + 1 \<and> lastFailure cb' = t'))
       \<and> (\<forall>m. net (proxy_config service serviceName host req) = Rejected m None \<longrightarrow>
            status (fst (snd (proxyToService url_host services net serviceName t t' req cbs))) = 503
            \<and> js_prop (json (fst (snd (proxyToService url_host services net serviceName t t' req cbs))))
                  ''error'' = Inr (JStr m)
            \<and> (\<exists>cb'. fst (proxyToService url_host services net serviceName t t' req cbs) serviceName
                    = Some cb'
                  \<and> failures cb' = failures cb + 1 \<and> lastFailure cb' = t'))
       \<and> (\<forall>st d. net (proxy_config service serviceName host req) = Resolved st d \<longrightarrow>
            fst (snd (proxyToService url_host services net serviceName t t' req cbs)) =
              \<lparr>status = st, json = d\<rparr>
            \<and> (\<exists>cb'. fst (proxyToService url_host services net serviceName t t' req cbs) serviceName
                    = Some cb'
                  \<and> failures cb' \<le> failures cb \<and> lastFailure cb' = lastFailure cb))"
proof -
  note disp = proxy_breaker_dispatched
    [of cbs serviceName cb services service url_host host t net t' req,
     OF assms(1) assms(3) assms(4) assms(2)]
  show ?thesis
    using disp
    by (auto simp: proxy_on_error_apply proxy_on_success_apply error_response_def after_gate_def)
qed

lemma proxy_breaker_cases:
  assumes "cbs serviceName = Some cb"
  shows "fst (proxyToService url_host services net serviceName t t' req cbs) serviceName = Some cb
       \<or> fst (proxyToService url_host services net serviceName t t' req cbs) serviceName =
            Some (after_gate cb)
       \<or> fst (proxyToService url_host services net serviceName t t' req cbs) serviceName =
            proxy_on_success serviceName (cbs(serviceName \<mapsto> after_gate cb)) serviceName
       \<or> fst (proxyToService url_host services net serviceName t t' req cbs) serviceName =
            proxy_on_error serviceName t' (cbs(serviceName \<mapsto> after_gate cb)) serviceName"
proof (cases "state cb = OPEN \<and> t - lastFailure cb \<le> 30000")
  case True
  then show ?thesis
    using assms by (simp add: proxyToService_def proxy_check_breaker_cases)
next
  case False
  then have gate: "proxy_check_breaker serviceName t cbs = Inr (cbs(serviceName \<mapsto> after_gate cb))"
    using assms by (auto simp: proxy_check_breaker_cases after_gate_def fun_upd_idem)
  show ?thesis
  proof (cases "discover services serviceName")
    case None
    then show ?thesis by (simp add: proxyToService_def gate)
  next
    case (Some service)
    show ?thesis
    proof (cases "url_host (found_url service)")
      case None
      then show ?thesis using Some by (simp add: proxyToService_def gate)
    next
      case (Some host)
      show ?thesis
        using proxy_breaker_dispatched
          [of cbs serviceName cb services service url_host host t net t' req,
           OF assms \<open>discover services serviceName = Some service\<close> Some False]
        by (cases "net (proxy_config service serviceName host req)") simp_all
    qed
  qed
qed

lemma proxy_step_same:
  assumes "cbs serviceName = Some cb"
    and "fst (proxyToService url_host services net serviceName t t' req cbs) serviceName = Some cb'"
  shows "(state cb \<noteq> CLOSED \<and> state cb' = CLOSED \<longrightarrow> failures cb' = 0)
       \<and> (failures cb \<noteq> 0 \<and> failures cb' = 0 \<longrightarrow> state cb' = CLOSED \<and> state cb \<noteq> CLOSED)"
proof -
  consider "cb' = cb" | "cb' = after_gate cb"
    | "Some cb' = proxy_on_success serviceName (cbs(serviceName \<mapsto> after_gate cb)) serviceName"
    | "Some cb' = proxy_on_error serviceName t' (cbs(serviceName \<mapsto> after_gate cb)) serviceName"
    using proxy_breaker_cases [of cbs serviceName cb url_host services net t t' req, OF assms(1)] assms(2)
    by auto
  then show ?thesis
  proof cases
    case 1
    then show ?thesis by auto
  next
    case 2
    then show ?thesis by (auto simp: after_gate_def)
  next
    case 3
    then show ?thesis
      by (auto simp: proxy_on_success_apply after_gate_def split: if_splits)
  next
    case 4
    then show ?thesis
      by (auto simp: proxy_on_error_apply after_gate_def split: if_splits)
  qed
qed

lemma health_on_success_apply:
  "cbs n = Some cb \<Longrightarrow>
   health_on_success n cbs n = Some (cb\<lparr>failures := 0, state := CLOSED\<rparr>)"
  by (simp add: health_on_success_def)

lemma health_on_error_apply:
  "cbs n = Some cb \<Longrightarrow>
   health_on_error n now cbs n =
     Some (cb\<lparr>failures := failures cb + 1, lastFailure := now,
              state := (if failures cb + 1 \<ge> 3 then OPEN else state cb)\<rparr>)"
  by (cases cb) (simp add: health_on_error_def Let_def)

lemma health_step_same:
  assumes "wf_registry services" and "cbs name = Some cb"
    and "fst (healthCheck probe clock services cbs) name = Some cb'"
  shows "(state cb \<noteq> CLOSED \<and> state cb' = CLOSED \<longrightarrow> failures cb' = 0)
       \<and> (failures cb \<noteq> 0 \<and> failures cb' = 0 \<longrightarrow> state cb' = CLOSED)"
proof (cases "map_of (stored services) name")
  case None
  then have "fst (healthCheck probe clock services cbs) name = cbs name"
    by (rule healthCheck_breaker_unregistered)
  with assms have "cb' = cb" by simp
  then show ?thesis by auto
next
  case (Some v)
  note hc = healthCheck_breaker [OF assms(1) Some, of probe clock cbs]
  show ?thesis
  proof (cases "probe name (health_config (url v))")
    case (Resolved st d)
    with hc assms(2,3) have "cb' = cb\<lparr>failures := 0, state := CLOSED\<rparr>"
      by (simp add: health_on_success_apply)
    then show ?thesis by simp
  next
    case (Rejected m r)
    with hc assms(2,3) have "cb' = cb\<lparr>failures := failures cb + 1, lastFailure := clock name,
        state := (if failures cb + 1 \<ge> 3 then OPEN else state cb)\<rparr>"
      by (simp add: health_on_error_apply)
    then show ?thesis by simp
  qed
qed

text \<open>
  Claim C3, amended. After every sequence of gateway operations, for the next operation
  and every breaker: if the state moves to CLOSED from another state the counter is zero
  afterwards; if the counter is reset to zero the state afterwards is CLOSED; and a reset
  that is not a move to CLOSED (the breaker was CLOSED already) only happens in a
  health-check invocation.
\<close>

theorem breaker_counter_reset:
  assumes "wf_gateway_op op"
    and "run_gateway_ops cbs0 ops name = Some cb"
    and "apply_gateway_op (run_gateway_ops cbs0 ops) op name = Some cb'"
  shows "(state cb \<noteq> CLOSED \<and> state cb' = CLOSED \<longrightarrow> failures cb' = 0)
       \<and> (failures cb \<noteq> 0 \<and> failures cb' = 0 \<longrightarrow> state cb' = CLOSED)
       \<and> (failures cb \<noteq> 0 \<and> failures cb' = 0 \<and> state cb = CLOSED \<longrightarrow> is_health_check op)"
proof (cases op)
  case (ProxyCall url_host services net serviceName t t' req)
  let ?cbs = "run_gateway_ops cbs0 ops"
  have after: "fst (proxyToService url_host services net serviceName t t' req ?cbs) name = Some cb'"
    using assms(3) unfolding ProxyCall by simp
  have nh: "\<not> is_health_check op"
    unfolding ProxyCall by simp
  show ?thesis
  proof (cases "name = serviceName")
    case True
    have "(state cb \<noteq> CLOSED \<and> state cb' = CLOSED \<longrightarrow> failures cb' = 0)
       \<and> (failures cb \<noteq> 0 \<and> failures cb' = 0 \<longrightarrow> state cb' = CLOSED \<and> state cb \<noteq> CLOSED)"
      using assms(2) after unfolding True by (rule proxy_step_same)
    then show ?thesis by blast
  next
    case False
    then have "fst (proxyToService url_host services net serviceName t t' req ?cbs) name = ?cbs name"
      by (rule proxy_other_breakers)
    with assms(2) after have "cb' = cb" by simp
    then show ?thesis by auto
  qed
next
  case (HealthCheck probe clock services)
  let ?cbs = "run_gateway_ops cbs0 ops"
  have wf: "wf_registry services"
    using assms(1) unfolding HealthCheck by simp
  have after: "fst (healthCheck probe clock services ?cbs) name = Some cb'"
    using assms(3) unfolding HealthCheck by simp
  have h: "is_health_check op"
    unfolding HealthCheck by simp
  have "(state cb \<noteq> CLOSED \<and> state cb' = CLOSED \<longrightarrow> failures cb' = 0)
       \<and> (failures cb \<noteq> 0 \<and> failures cb' = 0 \<longrightarrow> state cb' = CLOSED)"
    using wf assms(2) after by (rule health_step_same)
  with h show ?thesis by blast
qed

lemma demo_discover: "discover demo_registry ''user-service'' = Some (Record user_service)"
  by (simp add: discover_def services_at_def demo_registry_def user_service_def)

lemma demo_host: "demo_url_host (found_url (Record user_service)) = Some ''localhost:3001''"
  by (simp add: demo_url_host_def user_service_def startsWith_def)


lemma demo_initial: "initial_breakers ''user-service'' = Some \<lparr>failures = 0, state = CLOSED, lastFailure = 0\<rparr>"
  by (simp add: initial_breakers_def)

lemma demo_open: "open_breakers ''user-service'' = Some \<lparr>failures = 3, state = OPEN, lastFailure = 1000\<rparr>"
  by (simp add: open_breakers_def)


lemma empty_discover:
  "discover empty_registry ''user-service'' = None"
  "discover empty_registry ''item-service'' = None"
  "discover empty_registry ''list-service'' = None"
  by (simp_all add: discover_def services_at_def empty_registry_def object_members_def)






lemma demo_wf: "wf_registry demo_registry"
  by (simp add: wf_registry_def demo_registry_def)

lemma demo_lookup: "map_of (stored demo_registry) ''user-service'' = Some user_service"
  by (simp add: demo_registry_def user_service_def)

lemma demo_failed_call:
  assumes "cbs ''user-service'' = Some cb" and "state cb = CLOSED"
  shows "fst (proxyToService demo_url_host demo_registry net_down ''user-service'' t t' demo_request cbs)
           ''user-service'' =
         Some (cb\<lparr>failures := failures cb + 1, lastFailure := t',
                  state := (if failures cb + 1 \<ge> 3 then OPEN else CLOSED)\<rparr>)"
  using proxy_failed_call [of cbs "''user-service''" cb demo_registry "Record user_service" demo_url_host
      "''localhost:3001''" net_down t t' demo_request, OF assms(1) demo_discover demo_host]
    assms(2)
  by (auto simp: net_down_def)

lemma demo_two_failures:
  "run_gateway_ops initial_breakers two_failures ''user-service'' =
     Some \<lparr>failures = 2, state = CLOSED, lastFailure = 21\<rparr>"
proof -
  let ?c1 = "fst (proxyToService demo_url_host demo_registry net_down ''user-service'' 10 11
     demo_request initial_breakers)"
  have 1: "?c1 ''user-service'' = Some \<lparr>failures = 1, state = CLOSED, lastFailure = 11\<rparr>"
    using demo_failed_call [of initial_breakers "\<lparr>failures = 0, state = CLOSED, lastFailure = 0\<rparr>" 10 11, OF demo_initial] by simp
  have "fst (proxyToService demo_url_host demo_registry net_down ''user-service'' 20 21
     demo_request ?c1) ''user-service'' = Some \<lparr>failures = 2, state = CLOSED, lastFailure = 21\<rparr>"
    using demo_failed_call [of ?c1 "\<lparr>failures = 1, state = CLOSED, lastFailure = 11\<rparr>" 20 21, OF 1] by simp
  then show ?thesis
    by (simp add: run_gateway_ops_def two_failures_def)
qed

lemma demo_three_failures:
  "run_gateway_ops initial_breakers three_failures ''user-service'' =
     Some \<lparr>failures = 3, state = OPEN, lastFailure = 31\<rparr>"
proof -
  have "run_gateway_ops initial_breakers three_failures =
    fst (proxyToService demo_url_host demo_registry net_down ''user-service'' 30 31 demo_request
      (run_gateway_ops initial_breakers two_failures))"
    by (simp add: run_gateway_ops_def three_failures_def)
  then show ?thesis
    using demo_failed_call [of "run_gateway_ops initial_breakers two_failures" "\<lparr>failures = 2, state = CLOSED, lastFailure = 21\<rparr>" 30 31, OF demo_two_failures] by simp
qed

lemma demo_health_ok:
  assumes "cbs ''user-service'' = Some cb"
  shows "apply_gateway_op cbs (HealthCheck probe_ok (\<lambda>n. 50) demo_registry) ''user-service'' =
     Some (cb\<lparr>failures := 0, state := CLOSED\<rparr>)"
  using healthCheck_breaker [OF demo_wf demo_lookup, of probe_ok "\<lambda>n. 50" cbs] assms
  by (simp add: probe_ok_def health_on_success_apply)

text \<open>
  Claim C3 as stated fails: after two failed proxied calls the breaker is CLOSED with two
  failures; a health-check invocation whose probe succeeds then resets the counter to zero
  while the state is CLOSED before and after, so the reset happens at no transition.
\<close>

theorem reset_without_transition:
  "run_gateway_ops initial_breakers two_failures ''user-service'' =
     Some \<lparr>failures = 2, state = CLOSED, lastFailure = 21\<rparr>
   \<and> apply_gateway_op (run_gateway_ops initial_breakers two_failures)
        (HealthCheck probe_ok (\<lambda>n. 50) demo_registry) ''user-service'' =
     Some \<lparr>failures = 0, state = CLOSED, lastFailure = 21\<rparr>"
  using demo_two_failures demo_health_ok [of "run_gateway_ops initial_breakers two_failures" "\<lparr>failures = 2, state = CLOSED, lastFailure = 21\<rparr>", OF demo_two_failures] by simp

text \<open>The amended claim C3 on the example: a health check closing an OPEN breaker, and one resetting a CLOSED breaker.\<close>

theorem breaker_counter_reset_witness:
  "run_gateway_ops initial_breakers three_failures ''user-service'' =
     Some \<lparr>failures = 3, state = OPEN, lastFailure = 31\<rparr>
   \<and> apply_gateway_op (run_gateway_ops initial_breakers three_failures)
        (HealthCheck probe_ok (\<lambda>n. 50) demo_registry) ''user-service'' =
     Some \<lparr>failures = 0, state = CLOSED, lastFailure = 31\<rparr>
   \<and> wf_gateway_op (HealthCheck probe_ok (\<lambda>n. 50) demo_registry)
   \<and> is_health_check (HealthCheck probe_ok (\<lambda>n. 50) demo_registry)"
proof -
  have wf: "wf_gateway_op (HealthCheck probe_ok (\<lambda>n. 50) demo_registry)"
    by (simp add: demo_wf)
  have after3: "apply_gateway_op (run_gateway_ops initial_breakers three_failures)
        (HealthCheck probe_ok (\<lambda>n. 50) demo_registry) ''user-service'' =
     Some \<lparr>failures = 0, state = CLOSED, lastFailure = 31\<rparr>"
    using demo_health_ok [of "run_gateway_ops initial_breakers three_failures" "\<lparr>failures = 3, state = OPEN, lastFailure = 31\<rparr>", OF demo_three_failures] by simp
  have after2: "apply_gateway_op (run_gateway_ops initial_breakers two_failures)
        (HealthCheck probe_ok (\<lambda>n. 50) demo_registry) ''user-service'' =
     Some \<lparr>failures = 0, state = CLOSED, lastFailure = 21\<rparr>"
    using demo_health_ok [of "run_gateway_ops initial_breakers two_failures" "\<lparr>failures = 2, state = CLOSED, lastFailure = 21\<rparr>", OF demo_two_failures] by simp
  have "is_health_check (HealthCheck probe_ok (\<lambda>n. 50) demo_registry)"
    using breaker_counter_reset [OF wf demo_two_failures after2]
      breaker_counter_reset [OF wf demo_three_failures after3]
    by simp
  with wf demo_three_failures after3 show ?thesis by simp
qed

text \<open>Claim C10 on the example: an OPEN breaker closed by a successful probe, and failed probes counting up to OPEN.\<close>

theorem healthCheck_mutates_breaker_witness:
  "fst (healthCheck probe_ok (\<lambda>n. 50) demo_registry open_breakers) ''user-service'' =
     Some \<lparr>failures = 0, state = CLOSED, lastFailure = 1000\<rparr>
   \<and> fst (healthCheck probe_down (\<lambda>n. 50) demo_registry initial_breakers) ''user-service'' =
     Some \<lparr>failures = 1, state = CLOSED, lastFailure = 50\<rparr>
   \<and> fst (healthCheck probe_down (\<lambda>n. 50) demo_registry
         [''user-service'' \<mapsto> \<lparr>failures = 2, state = CLOSED, lastFailure = 21\<rparr>]) ''user-service'' =
     Some \<lparr>failures = 3, state = OPEN, lastFailure = 50\<rparr>"
proof -
  have two: "[''user-service'' \<mapsto> \<lparr>failures = 2, state = CLOSED, lastFailure = 21\<rparr>] ''user-service''
      = Some \<lparr>failures = 2, state = CLOSED, lastFailure = 21\<rparr>"
    by simp
  show ?thesis
    using healthCheck_mutates_breaker [of demo_registry "''user-service''" user_service open_breakers
        "\<lparr>failures = 3, state = OPEN, lastFailure = 1000\<rparr>" probe_ok "\<lambda>n. 50", OF demo_wf demo_lookup demo_open]
      healthCheck_mutates_breaker [of demo_registry "''user-service''" user_service initial_breakers
        "\<lparr>failures = 0, state = CLOSED, lastFailure = 0\<rparr>" probe_down "\<lambda>n. 50", OF demo_wf demo_lookup demo_initial]
      healthCheck_mutates_breaker [of demo_registry "''user-service''" user_service
        "[''user-service'' \<mapsto> \<lparr>failures = 2, state = CLOSED, lastFailure = 21\<rparr>]"
        "\<lparr>failures = 2, state = CLOSED, lastFailure = 21\<rparr>" probe_down "\<lambda>n. 50", OF demo_wf demo_lookup two]
    by (simp add: probe_ok_def probe_down_def)
qed

text \<open>
  Claim C4 as stated fails: a downstream 404 is relayed as it is, and the breaker, which
  had no failure, has recorded one with the timestamp set.
\<close>

theorem relayed_error_counts_as_failure:
  "initial_breakers ''user-service'' = Some \<lparr>failures = 0, state = CLOSED, lastFailure = 0\<rparr>
   \<and> fst (snd (proxyToService demo_url_host demo_registry net_404 ''user-service'' 10 11
          demo_request initial_breakers)) =
       \<lparr>status = 404,
        json = JObj [(''success'', JBool False), (''message'', JStr ''not found'')]\<rparr>
   \<and> fst (proxyToService demo_url_host demo_registry net_404 ''user-service'' 10 11
          demo_request initial_breakers) ''user-service'' =
       Some \<lparr>failures = 1, state = CLOSED, lastFailure = 11\<rparr>"
proof -
  have pass: "\<not> (state \<lparr>failures = 0, state = CLOSED, lastFailure = 0\<rparr> = OPEN
      \<and> 10 - lastFailure \<lparr>failures = 0, state = CLOSED, lastFailure = 0\<rparr> \<le> 30000)"
    by simp
  show ?thesis
    using proxy_breaker_dispatched [of initial_breakers "''user-service''"
        "\<lparr>failures = 0, state = CLOSED, lastFailure = 0\<rparr>" demo_registry "Record user_service"
        demo_url_host "''localhost:3001''" 10 net_404 11 demo_request,
        OF demo_initial demo_discover demo_host pass]
    by (simp add: net_404_def error_response_def proxy_on_error_apply after_gate_def demo_initial)
qed

text \<open>The amended claim C4 on the example: an HTTP error, a network failure and a success.\<close>

theorem proxy_relays_error_and_records_failure_witness:
  "fst (snd (proxyToService demo_url_host demo_registry net_404 ''user-service'' 40 41
          demo_request initial_breakers)) =
       \<lparr>status = 404,
        json = JObj [(''success'', JBool False), (''message'', JStr ''not found'')]\<rparr>
   \<and> (\<exists>cb'. fst (proxyToService demo_url_host demo_registry net_404 ''user-service'' 40 41
          demo_request initial_breakers) ''user-service'' = Some cb'
        \<and> failures cb' = 1 \<and> lastFailure cb' = 41)
   \<and> status (fst (snd (proxyToService demo_url_host demo_registry net_down ''user-service'' 40 41
          demo_request initial_breakers))) = 503
   \<and> (\<exists>cb'. fst (proxyToService demo_url_host demo_registry net_down ''user-service'' 40 41
          demo_request initial_breakers) ''user-service'' = Some cb'
        \<and> failures cb' = 1 \<and> lastFailure cb' = 41)
   \<and> fst (snd (proxyToService demo_url_host demo_registry net_ok ''user-service'' 40 41
          demo_request initial_breakers)) =
       \<lparr>status = 200, json = JObj [(''success'', JBool True)]\<rparr>
   \<and> (\<exists>cb'. fst (proxyToService demo_url_host demo_registry net_ok ''user-service'' 40 41
          demo_request initial_breakers) ''user-service'' = Some cb'
        \<and> failures cb' = 0 \<and> lastFailure cb' = 0)"
proof -
  have pass: "\<not> (state \<lparr>failures = 0, state = CLOSED, lastFailure = 0\<rparr> = OPEN
      \<and> 40 - lastFailure \<lparr>failures = 0, state = CLOSED, lastFailure = 0\<rparr> \<le> 30000)"
    by simp
  note th = proxy_relays_error_and_records_failure
    [of initial_breakers "''user-service''" "\<lparr>failures = 0, state = CLOSED, lastFailure = 0\<rparr>"
       40 demo_registry "Record user_service" demo_url_host "''localhost:3001''" _ demo_request 41,
     OF demo_initial pass demo_discover demo_host]
  show ?thesis
    using th [of net_404] th [of net_down] th [of net_ok]
    by (simp add: net_404_def net_down_def net_ok_def)
qed

text \<open>
  What a dispatched call forwards: the method and the body of the request, and its headers
  with \<open>host\<close> set to the host of the service.
\<close>

lemma proxy_forwards_request:
  "cfg_method (proxy_config service serviceName host req) = httpMethod req"
  "cfg_data (proxy_config service serviceName host req) = body req"
  "map_of (cfg_headers (proxy_config service serviceName host req)) =
     (map_of (headers req))(''host'' \<mapsto> host)"
  by (simp_all add: proxy_config_def update_conv')

text \<open>
  Claim C1 on the code. The forwarded call has the method, the body and the headers of
  the request with the host rewritten, but the path is not the inbound path without its
  gateway prefix: the handler removes \<open>/api/user\<close>, the part of the service name before
  the first dash, so \<open>/api/users/123\<close> leaves \<open>s/123\<close> glued to the address of the
  service, and \<open>/api/auth/login\<close> is forwarded whole.
\<close>

theorem proxy_strips_wrong_prefix:
  "snd (snd (proxyToService demo_url_host demo_registry net_ok ''user-service'' 10 11
      demo_request initial_breakers)) =
     [\<lparr>cfg_method = ''GET'', cfg_url = ''http://localhost:3001s/123'', cfg_data = JObj [],
       cfg_headers = [(''host'', ''localhost:3001''), (''accept'', ''*/*'')],
       cfg_timeout = 10000\<rparr>]
   \<and> snd (snd (proxyToService demo_url_host demo_registry net_ok ''user-service'' 10 11
      (demo_request\<lparr>originalUrl := ''/api/auth/login''\<rparr>) initial_breakers)) =
     [\<lparr>cfg_method = ''GET'', cfg_url = ''http://localhost:3001/api/auth/login'', cfg_data = JObj [],
       cfg_headers = [(''host'', ''localhost:3001''), (''accept'', ''*/*'')],
       cfg_timeout = 10000\<rparr>]"
proof -
  have pass: "\<not> (state \<lparr>failures = 0, state = CLOSED, lastFailure = 0\<rparr> = OPEN
      \<and> 10 - lastFailure \<lparr>failures = 0, state = CLOSED, lastFailure = 0\<rparr> \<le> 30000)"
    by simp
  note disp = proxy_breaker_dispatched [of initial_breakers "''user-service''"
        "\<lparr>failures = 0, state = CLOSED, lastFailure = 0\<rparr>" demo_registry "Record user_service"
        demo_url_host "''localhost:3001''" 10 net_ok 11,
        OF demo_initial demo_discover demo_host pass]
  have u1: "target_url (Record user_service) ''user-service'' demo_request = ''http://localhost:3001s/123''"
    by (simp add: target_url_def user_service_def demo_request_def split_first_def startsWith_def)
  have u2: "target_url (Record user_service) ''user-service'' (demo_request\<lparr>originalUrl := ''/api/auth/login''\<rparr>)
      = ''http://localhost:3001/api/auth/login''"
    by (simp add: target_url_def user_service_def demo_request_def split_first_def startsWith_def)
  show ?thesis
    using disp [of demo_request] disp [of "demo_request\<lparr>originalUrl := ''/api/auth/login''\<rparr>"]
    by (simp add: net_ok_def proxy_config_def u1 u2) (simp add: demo_request_def)
qed


section \<open>Properties of the aggregated endpoints\<close>

lemma fetch_fails_iff:
  "fst (fetch services net serviceName mk) = Inl e \<longleftrightarrow>
     (discover services serviceName = None \<and> e = cannot_read ''null'' ''url'')
     \<or> (\<exists>service r. discover services serviceName = Some service
           \<and> net (mk (found_url service)) = Rejected e r)"
  by (auto simp: fetch_def Let_def split: option.splits axios_result.splits)

lemma fetch_miss:
  "discover services serviceName = None \<Longrightarrow>
   fetch services net serviceName mk = (Inl (cannot_read ''null'' ''url''), [])"
  by (simp add: fetch_def)

lemma dashboard_error:
  assumes "bearer req = Some token"
    and "dashboard_user js_plus to_fixed services net token = (Inl e, calls)"
  shows "getDashboard js_plus to_fixed services net req =
     (\<lparr>status = 500,
       json = JObj [(''success'', JBool False),
         (''message'', JStr ''Erro ao carregar dashboard''),
         (''error'', JStr e)]\<rparr>, calls)"
  using assms by (simp add: getDashboard_def)

lemma dashboard_items_fails:
  assumes "fetch services net ''item-service'' items_config = (Inl e, calls)"
  shows "dashboard_items js_plus to_fixed services net user lists' = (Inl e, calls)"
  using assms by (simp add: dashboard_items_def)

lemma dashboard_lists_fails:
  assumes "fetch services net ''list-service'' (lists_config token) = (Inl e, calls)"
  shows "dashboard_lists js_plus to_fixed services net token user = (Inl e, calls)"
  using assms by (simp add: dashboard_lists_def)

lemma dashboard_lists_then_items_fails:
  assumes "fetch services net ''list-service'' (lists_config token) = (Inr listsData, calls1)"
    and "lists_of listsData = Inr lists'"
    and "fetch services net ''item-service'' items_config = (Inl e, calls2)"
  shows "dashboard_lists js_plus to_fixed services net token user = (Inl e, calls1 @ calls2)"
  using assms by (simp add: dashboard_lists_def dashboard_items_fails)

lemma dashboard_lists_throws_when_a_fetch_fails:
  assumes "fst (fetch services net ''list-service'' (lists_config token)) = Inl e1
         \<or> fst (fetch services net ''item-service'' items_config) = Inl e2"
  shows "\<exists>e. fst (dashboard_lists js_plus to_fixed services net token user) = Inl e"
proof (cases "fetch services net ''list-service'' (lists_config token)")
  case (Pair r calls1)
  show ?thesis
  proof (cases r)
    case (Inl e)
    with Pair show ?thesis by (simp add: dashboard_lists_def)
  next
    case (Inr listsData)
    with Pair assms have items: "fst (fetch services net ''item-service'' items_config) = Inl e2"
      by simp
    then obtain calls2 where f2: "fetch services net ''item-service'' items_config = (Inl e2, calls2)"
      by (cases "fetch services net ''item-service'' items_config") simp
    show ?thesis
    proof (cases "lists_of listsData")
      case (Inl e)
      with Pair Inr show ?thesis by (simp add: dashboard_lists_def)
    next
      case (Inr lists')
      with Pair \<open>r = Inr listsData\<close> f2 show ?thesis
        by (simp add: dashboard_lists_def dashboard_items_fails)
    qed
  qed
qed

lemma dashboard_user_passes:
  assumes "fetch services net ''user-service'' (validate_config token) = (Inr userData, calls0)"
    and "js_prop userData ''success'' = Inr ok" and "truthy ok"
    and "js_prop userData ''data'' = Inr d" and "js_prop d ''user'' = Inr user"
  shows "dashboard_user js_plus to_fixed services net token =
     (fst (dashboard_lists js_plus to_fixed services net token user),
      calls0 @ snd (dashboard_lists js_plus to_fixed services net token user))"
  using assms by (simp add: dashboard_user_def split_beta)

lemma dashboard_user_throws_when_a_fetch_fails:
  assumes "fetch services net ''user-service'' (validate_config token) = (Inr userData, calls0)"
    and "js_prop userData ''success'' = Inr ok" and "truthy ok"
    and "fst (fetch services net ''list-service'' (lists_config token)) = Inl e1
         \<or> fst (fetch services net ''item-service'' items_config) = Inl e2"
  shows "\<exists>e. fst (dashboard_user js_plus to_fixed services net token) = Inl e"
proof (cases "js_prop userData ''data''")
  case (Inl e)
  with assms(1-3) show ?thesis by (simp add: dashboard_user_def)
next
  case (Inr d)
  show ?thesis
  proof (cases "js_prop d ''user''")
    case (Inl e)
    with Inr assms(1-3) show ?thesis by (simp add: dashboard_user_def)
  next
    case (Inr user)
    obtain e where "fst (dashboard_lists js_plus to_fixed services net token user) = Inl e"
      using dashboard_lists_throws_when_a_fetch_fails [OF assms(4)] by blast
    then show ?thesis
      using dashboard_user_passes [OF assms(1-3) \<open>js_prop userData ''data'' = Inr d\<close> Inr]
      by simp
  qed
qed

text \<open>
  An answer that resolves with a falsy success flag is not a failed fetch for the
  dashboard: the section takes its default, no lists or a total of zero.
\<close>

lemma dashboard_defaults_on_reported_failure:
  assumes "js_prop answer ''success'' = Inr ok" and "\<not> truthy ok"
  shows "lists_of answer = Inr (JArr [])" and "totalItems_of answer = Inr (JNum 0)"
  using assms by (simp_all add: lists_of_def totalItems_of_def)

lemma dashboard_success:
  assumes "bearer req = Some token"
    and "fetch services net ''user-service'' (validate_config token) = (Inr userData, calls0)"
    and "js_prop userData ''success'' = Inr ok" and "truthy ok"
    and "js_prop userData ''data'' = Inr d" and "js_prop d ''user'' = Inr user"
    and "fst (fetch services net ''list-service'' (lists_config token)) = Inr listsData"
    and "lists_of listsData = Inr lists'"
    and "fst (fetch services net ''item-service'' items_config) = Inr itemsData"
    and "totalItems_of itemsData = Inr totalItems"
    and "dashboard_data js_plus to_fixed user lists' totalItems = Inr dashboard"
  shows "fst (getDashboard js_plus to_fixed services net req) =
     \<lparr>status = 200, json = JObj [(''success'', JBool True), (''data'', dashboard)]\<rparr>"
proof -
  obtain calls1 where f1: "fetch services net ''list-service'' (lists_config token) = (Inr listsData, calls1)"
    using assms(7) by (cases "fetch services net ''list-service'' (lists_config token)") simp
  obtain calls2 where f2: "fetch services net ''item-service'' items_config = (Inr itemsData, calls2)"
    using assms(9) by (cases "fetch services net ''item-service'' items_config") simp
  have "dashboard_items js_plus to_fixed services net user lists' =
      (Inr \<lparr>status = 200, json = JObj [(''success'', JBool True), (''data'', dashboard)]\<rparr>, calls2)"
    by (simp add: dashboard_items_def f2 assms(10,11))
  then have "dashboard_lists js_plus to_fixed services net token user =
      (Inr \<lparr>status = 200, json = JObj [(''success'', JBool True), (''data'', dashboard)]\<rparr>,
       calls1 @ calls2)"
    by (simp add: dashboard_lists_def f1 assms(8))
  then have "dashboard_user js_plus to_fixed services net token =
      (Inr \<lparr>status = 200, json = JObj [(''success'', JBool True), (''data'', dashboard)]\<rparr>,
       calls0 @ calls1 @ calls2)"
    using dashboard_user_passes [OF assms(2-6), of js_plus to_fixed] by simp
  then show ?thesis
    by (simp add: getDashboard_def assms(1))
qed

text \<open>
  Claim C6, amended. For a dashboard request that has passed the credential check (a
  bearer token that the user backend has validated), if the fetch from the list backend or
  the fetch from the item backend fails (the service is not discoverable, or the call is
  rejected), the answer is the generic server error 500 whose \<open>error\<close> field carries the
  detail of the failure: the message of the list fetch when that one fails, of the item
  fetch when the lists were fetched. A success answer is only sent when both fetches
  resolved. A backend that answers with a falsy success flag has not failed: its section
  is defaulted, to no lists or to a total of zero items, and the dashboard computed from
  the defaulted section is sent as a success.
\<close>

theorem dashboard_all_or_nothing:
  assumes "bearer req = Some token"
    and "fetch services net ''user-service'' (validate_config token) = (Inr userData, calls0)"
    and "js_prop userData ''success'' = Inr ok" and "truthy ok"
  shows "(fst (fetch services net ''list-service'' (lists_config token)) = Inl e1
          \<or> fst (fetch services net ''item-service'' items_config) = Inl e2 \<longrightarrow>
          (\<exists>detail. fst (getDashboard js_plus to_fixed services net req) =
             \<lparr>status = 500,
              json = JObj [(''success'', JBool False),
                (''message'', JStr ''Erro ao carregar dashboard''),
                (''error'', JStr detail)]\<rparr>))
       \<and> (js_prop userData ''data'' = Inr d \<and> js_prop d ''user'' = Inr user
          \<and> fst (fetch services net ''list-service'' (lists_config token)) = Inl e1 \<longrightarrow>
          fst (getDashboard js_plus to_fixed services net req) =
             \<lparr>status = 500,
              json = JObj [(''success'', JBool False),
                (''message'', JStr ''Erro ao carregar dashboard''),
                (''error'', JStr e1)]\<rparr>)
       \<and> (js_prop userData ''data'' = Inr d \<and> js_prop d ''user'' = Inr user
          \<and> fst (fetch services net ''list-service'' (lists_config token)) = Inr listsData
          \<and> lists_of listsData = Inr lists'
          \<and> fst (fetch services net ''item-service'' items_config) = Inl e2 \<longrightarrow>
          fst (getDashboard js_plus to_fixed services net req) =
             \<lparr>status = 500,
              json = JObj [(''success'', JBool False),
                (''message'', JStr ''Erro ao carregar dashboard''),
                (''error'', JStr e2)]\<rparr>)
       \<and> (status (fst (getDashboard js_plus to_fixed services net req)) = 200 \<longrightarrow>
          (\<exists>listsData itemsData.
             fst (fetch services net ''list-service'' (lists_config token)) = Inr listsData
             \<and> fst (fetch services net ''item-service'' items_config) = Inr itemsData))
       \<and> (js_prop userData ''data'' = Inr d \<and> js_prop d ''user'' = Inr user
          \<and> fst (fetch services net ''list-service'' (lists_config token)) = Inr listsData
          \<and> js_prop listsData ''success'' = Inr lok \<and> \<not> truthy lok
          \<and> fst (fetch services net ''item-service'' items_config) = Inr itemsData
          \<and> totalItems_of itemsData = Inr totalItems
          \<and> dashboard_data js_plus to_fixed user (JArr []) totalItems = Inr dashboard \<longrightarrow>
          fst (getDashboard js_plus to_fixed services net req) =
             \<lparr>status = 200, json = JObj [(''success'', JBool True), (''data'', dashboard)]\<rparr>)
       \<and> (js_prop userData ''data'' = Inr d \<and> js_prop d ''user'' = Inr user
          \<and> fst (fetch services net ''list-service'' (lists_config token)) = Inr listsData
          \<and> lists_of listsData = Inr lists'
          \<and> fst (fetch services net ''item-service'' items_config) = Inr itemsData
          \<and> js_prop itemsData ''success'' = Inr iok \<and> \<not> truthy iok
          \<and> dashboard_data js_plus to_fixed user lists' (JNum 0) = Inr dashboard \<longrightarrow>
          fst (getDashboard js_plus to_fixed services net req) =
             \<lparr>status = 200, json = JObj [(''success'', JBool True), (''data'', dashboard)]\<rparr>)"
proof (intro conjI impI)
  assume fails: "fst (fetch services net ''list-service'' (lists_config token)) = Inl e1
          \<or> fst (fetch services net ''item-service'' items_config) = Inl e2"
  obtain e where "fst (dashboard_user js_plus to_fixed services net token) = Inl e"
    using dashboard_user_throws_when_a_fetch_fails [OF assms(2-4) fails] by blast
  then have "dashboard_user js_plus to_fixed services net token =
      (Inl e, snd (dashboard_user js_plus to_fixed services net token))"
    by (cases "dashboard_user js_plus to_fixed services net token") simp
  from dashboard_error [OF assms(1) this]
  show "\<exists>detail. fst (getDashboard js_plus to_fixed services net req) =
             \<lparr>status = 500,
              json = JObj [(''success'', JBool False),
                (''message'', JStr ''Erro ao carregar dashboard''),
                (''error'', JStr detail)]\<rparr>"
    by (intro exI [of _ e]) simp
next
  assume a: "js_prop userData ''data'' = Inr d \<and> js_prop d ''user'' = Inr user
          \<and> fst (fetch services net ''list-service'' (lists_config token)) = Inl e1"
  then obtain calls1 where "fetch services net ''list-service'' (lists_config token) = (Inl e1, calls1)"
    by (cases "fetch services net ''list-service'' (lists_config token)") simp
  then have "dashboard_lists js_plus to_fixed services net token user = (Inl e1, calls1)"
    by (rule dashboard_lists_fails)
  then have "dashboard_user js_plus to_fixed services net token = (Inl e1, calls0 @ calls1)"
    using dashboard_user_passes [OF assms(2-4), of d user js_plus to_fixed] a by simp
  from dashboard_error [OF assms(1) this]
  show "fst (getDashboard js_plus to_fixed services net req) =
             \<lparr>status = 500,
              json = JObj [(''success'', JBool False),
                (''message'', JStr ''Erro ao carregar dashboard''),
                (''error'', JStr e1)]\<rparr>"
    by simp
next
  assume a: "js_prop userData ''data'' = Inr d \<and> js_prop d ''user'' = Inr user
          \<and> fst (fetch services net ''list-service'' (lists_config token)) = Inr listsData
          \<and> lists_of listsData = Inr lists'
          \<and> fst (fetch services net ''item-service'' items_config) = Inl e2"
  then obtain calls1 where f1: "fetch services net ''list-service'' (lists_config token) = (Inr listsData, calls1)"
    by (cases "fetch services net ''list-service'' (lists_config token)") simp
  from a obtain calls2 where f2: "fetch services net ''item-service'' items_config = (Inl e2, calls2)"
    by (cases "fetch services net ''item-service'' items_config") simp
  from a have l: "lists_of listsData = Inr lists'" by simp
  have "dashboard_lists js_plus to_fixed services net token user = (Inl e2, calls1 @ calls2)"
    using f1 l f2 by (rule dashboard_lists_then_items_fails)
  then have "dashboard_user js_plus to_fixed services net token = (Inl e2, calls0 @ calls1 @ calls2)"
    using dashboard_user_passes [OF assms(2-4), of d user js_plus to_fixed] a by simp
  from dashboard_error [OF assms(1) this]
  show "fst (getDashboard js_plus to_fixed services net req) =
             \<lparr>status = 500,
              json = JObj [(''success'', JBool False),
                (''message'', JStr ''Erro ao carregar dashboard''),
                (''error'', JStr e2)]\<rparr>"
    by simp
next
  assume ok200: "status (fst (getDashboard js_plus to_fixed services net req)) = 200"
  have no_fail: "\<not> (fst (fetch services net ''list-service'' (lists_config token)) = Inl x
          \<or> fst (fetch services net ''item-service'' items_config) = Inl y)" for x y
  proof
    assume fails: "fst (fetch services net ''list-service'' (lists_config token)) = Inl x
          \<or> fst (fetch services net ''item-service'' items_config) = Inl y"
    obtain e where "fst (dashboard_user js_plus to_fixed services net token) = Inl e"
      using dashboard_user_throws_when_a_fetch_fails [OF assms(2-4) fails] by blast
    then have "dashboard_user js_plus to_fixed services net token =
        (Inl e, snd (dashboard_user js_plus to_fixed services net token))"
      by (cases "dashboard_user js_plus to_fixed services net token") simp
    from dashboard_error [OF assms(1) this] ok200 show False by simp
  qed
  show "\<exists>listsData itemsData.
             fst (fetch services net ''list-service'' (lists_config token)) = Inr listsData
             \<and> fst (fetch services net ''item-service'' items_config) = Inr itemsData"
    using no_fail
    by (cases "fst (fetch services net ''list-service'' (lists_config token))";
        cases "fst (fetch services net ''item-service'' items_config)") auto
next
  assume a: "js_prop userData ''data'' = Inr d \<and> js_prop d ''user'' = Inr user
          \<and> fst (fetch services net ''list-service'' (lists_config token)) = Inr listsData
          \<and> js_prop listsData ''success'' = Inr lok \<and> \<not> truthy lok
          \<and> fst (fetch services net ''item-service'' items_config) = Inr itemsData
          \<and> totalItems_of itemsData = Inr totalItems
          \<and> dashboard_data js_plus to_fixed user (JArr []) totalItems = Inr dashboard"
  then have "lists_of listsData = Inr (JArr [])"
    using dashboard_defaults_on_reported_failure(1) [of listsData lok] by simp
  with a show "fst (getDashboard js_plus to_fixed services net req) =
             \<lparr>status = 200, json = JObj [(''success'', JBool True), (''data'', dashboard)]\<rparr>"
    using dashboard_success [OF assms, of d user listsData "JArr []" itemsData totalItems
        js_plus to_fixed dashboard]
    by simp
next
  assume a: "js_prop userData ''data'' = Inr d \<and> js_prop d ''user'' = Inr user
          \<and> fst (fetch services net ''list-service'' (lists_config token)) = Inr listsData
          \<and> lists_of listsData = Inr lists'
          \<and> fst (fetch services net ''item-service'' items_config) = Inr itemsData
          \<and> js_prop itemsData ''success'' = Inr iok \<and> \<not> truthy iok
          \<and> dashboard_data js_plus to_fixed user lists' (JNum 0) = Inr dashboard"
  then have "totalItems_of itemsData = Inr (JNum 0)"
    using dashboard_defaults_on_reported_failure(2) [of itemsData iok] by simp
  with a show "fst (getDashboard js_plus to_fixed services net req) =
             \<lparr>status = 200, json = JObj [(''success'', JBool True), (''data'', dashboard)]\<rparr>"
    using dashboard_success [OF assms, of d user listsData lists' itemsData "JNum 0"
        js_plus to_fixed dashboard]
    by simp
qed







lemma search_lists_fails:
  assumes "fetch services net ''list-service'' (lists_config token) = (Inl e, calls)"
  shows "search_lists toLowerCase services net q token results =
     (AList.update ''listsError'' (JStr e) results, calls)"
  using assms by (simp add: search_lists_def)

lemma search_items_keys:
  "fst ` set (fst (search_items encodeURIComponent services net q [])) \<subseteq> {''items'', ''itemsError''}"
  by (auto simp: search_items_def split: prod.splits sum.splits if_splits)

lemma globalSearch_unfold:
  assumes "map_of (query req) ''q'' = Some q" and "truthy q"
  shows "globalSearch encodeURIComponent toLowerCase services net timestamp req =
     (\<lparr>status = 200,
       json = JObj [(''success'', JBool True),
         (''data'', JObj (case bearer req of
              None \<Rightarrow> fst (search_items encodeURIComponent services net q [])
            | Some token \<Rightarrow>
                fst (search_lists toLowerCase services net q token
                  (fst (search_items encodeURIComponent services net q []))))),
         (''search'', JObj [(''query'', q), (''timestamp'', JStr timestamp)])]\<rparr>,
      snd (search_items encodeURIComponent services net q []) @
      (case bearer req of
         None \<Rightarrow> []
       | Some token \<Rightarrow>
           snd (search_lists toLowerCase services net q token
             (fst (search_items encodeURIComponent services net q [])))))"
  using assms by (simp add: globalSearch_def query_q_def Let_def split_beta split: option.splits)

lemma search_lists_keeps:
  "k \<noteq> ''lists'' \<Longrightarrow> k \<noteq> ''listsError'' \<Longrightarrow>
   map_of (fst (search_lists toLowerCase services net q token results)) k = map_of results k"
  by (auto simp: search_lists_def update_conv' split: prod.splits sum.splits)




lemma fetch_calls:
  assumes "c \<in> set (snd (fetch services net serviceName mk))"
  shows "\<exists>svc. discover services serviceName = Some svc \<and> c = mk (found_url svc)"
  using assms
  by (auto simp: fetch_def Let_def split: option.splits axios_result.splits)

lemma dashboard_items_calls:
  "snd (dashboard_items js_plus to_fixed services net user lists') =
   snd (fetch services net ''item-service'' items_config)"
  by (simp add: dashboard_items_def split: prod.splits sum.splits)

lemma dashboard_lists_calls:
  "set (snd (dashboard_lists js_plus to_fixed services net token user)) \<subseteq>
   set (snd (fetch services net ''list-service'' (lists_config token))) \<union>
   set (snd (fetch services net ''item-service'' items_config))"
  by (auto simp: dashboard_lists_def dashboard_items_calls split_beta
      split: sum.splits)

lemma dashboard_user_calls:
  "set (snd (dashboard_user js_plus to_fixed services net token)) \<subseteq>
   set (snd (fetch services net ''user-service'' (validate_config token))) \<union>
   set (snd (fetch services net ''list-service'' (lists_config token))) \<union>
   set (snd (fetch services net ''item-service'' items_config))"
proof -
  have "set (snd (dashboard_user js_plus to_fixed services net token)) \<subseteq>
     set (snd (fetch services net ''user-service'' (validate_config token))) \<union>
     (\<Union>user. set (snd (dashboard_lists js_plus to_fixed services net token user)))"
    by (auto simp: dashboard_user_def split_beta split: sum.splits if_splits)
  then show ?thesis
    using dashboard_lists_calls [of js_plus to_fixed services net token] by blast
qed

lemma getDashboard_calls:
  assumes "bearer req = Some token"
  shows "snd (getDashboard js_plus to_fixed services net req) =
         snd (dashboard_user js_plus to_fixed services net token)"
  using assms by (simp add: getDashboard_def split: prod.splits sum.splits)

lemma search_items_calls:
  "snd (search_items encodeURIComponent services net q results) =
   snd (fetch services net ''item-service'' (search_config encodeURIComponent q))"
  by (simp add: search_items_def split: prod.splits sum.splits)

lemma search_lists_calls:
  "snd (search_lists toLowerCase services net q token results) =
   snd (fetch services net ''list-service'' (lists_config token))"
  by (simp add: search_lists_def split: prod.splits sum.splits)

lemma search_items_miss:
  assumes "discover services ''item-service'' = None"
  shows "search_items encodeURIComponent services net q [] =
           ([(''itemsError'', JStr (cannot_read ''null'' ''url''))], [])"
  using assms by (simp add: search_items_def fetch_miss)

lemma search_lists_miss:
  assumes "discover services ''list-service'' = None"
  shows "search_lists toLowerCase services net q token results =
           (AList.update ''listsError'' (JStr (cannot_read ''null'' ''url'')) results, [])"
  using assms by (simp add: search_lists_def fetch_miss)

lemma search_items_no_lists:
  "map_of (fst (search_items encodeURIComponent services net q [])) ''lists'' = None"
  using search_items_keys [of encodeURIComponent services net q]
  by (auto simp: map_of_eq_None_iff)

text \<open>
  Claim C5, amended. When discovery returns nothing for the target service, no downstream
  call is made to it on any path. On the proxy path the answer is 503 and no call is made
  at all. On the aggregator paths every call that is made goes to a service that was
  discovered, and the miss is reported by the failure policy of the endpoint: the
  dashboard fails as a whole with its server error 500 (with no call at all when the user
  service is the one missing, and also when the list or the item service is missing after
  the credential check has passed), and the search still answers 200 with the error marker
  of the section whose service is missing.
\<close>

theorem discovery_miss_makes_no_call:
  "(discover services serviceName = None \<longrightarrow>
      status (fst (snd (proxyToService url_host services net serviceName t t' req cbs))) = 503
      \<and> snd (snd (proxyToService url_host services net serviceName t t' req cbs)) = [])
   \<and> (bearer req = Some token \<and> discover services ''user-service'' = None \<longrightarrow>
      status (fst (getDashboard js_plus to_fixed services net req)) = 500
      \<and> snd (getDashboard js_plus to_fixed services net req) = [])
   \<and> (bearer req = Some token
        \<and> fst (fetch services net ''user-service'' (validate_config token)) = Inr userData
        \<and> js_prop userData ''success'' = Inr ok \<and> truthy ok
        \<and> (discover services ''list-service'' = None \<or> discover services ''item-service'' = None) \<longrightarrow>
      status (fst (getDashboard js_plus to_fixed services net req)) = 500)
   \<and> (bearer req = Some token \<longrightarrow>
      (\<forall>c \<in> set (snd (getDashboard js_plus to_fixed services net req)).
         (\<exists>svc. discover services ''user-service'' = Some svc \<and> c = validate_config token (found_url svc))
         \<or> (\<exists>svc. discover services ''list-service'' = Some svc \<and> c = lists_config token (found_url svc))
         \<or> (\<exists>svc. discover services ''item-service'' = Some svc \<and> c = items_config (found_url svc))))
   \<and> (map_of (query req) ''q'' = Some q \<and> truthy q \<and> discover services ''item-service'' = None \<longrightarrow>
      status (fst (globalSearch encodeURIComponent toLowerCase services net timestamp req)) = 200
      \<and> (\<exists>results e.
            js_prop (json (fst (globalSearch encodeURIComponent toLowerCase services net timestamp req)))
              ''data'' = Inr (JObj results)
            \<and> map_of results ''itemsError'' = Some (JStr e) \<and> map_of results ''items'' = None))
   \<and> (map_of (query req) ''q'' = Some q \<and> truthy q \<and> bearer req = Some token
        \<and> discover services ''list-service'' = None \<longrightarrow>
      status (fst (globalSearch encodeURIComponent toLowerCase services net timestamp req)) = 200
      \<and> (\<exists>results e.
            js_prop (json (fst (globalSearch encodeURIComponent toLowerCase services net timestamp req)))
              ''data'' = Inr (JObj results)
            \<and> map_of results ''listsError'' = Some (JStr e) \<and> map_of results ''lists'' = None))
   \<and> (map_of (query req) ''q'' = Some q \<and> truthy q \<longrightarrow>
      (\<forall>c \<in> set (snd (globalSearch encodeURIComponent toLowerCase services net timestamp req)).
         (\<exists>svc. discover services ''item-service'' = Some svc
                \<and> c = search_config encodeURIComponent q (found_url svc))
         \<or> (\<exists>svc tok. bearer req = Some tok \<and> discover services ''list-service'' = Some svc
                \<and> c = lists_config tok (found_url svc))))"
proof (intro conjI impI ballI)
  assume "discover services serviceName = None"
  then show "status (fst (snd (proxyToService url_host services net serviceName t t' req cbs))) = 503"
    and "snd (snd (proxyToService url_host services net serviceName t t' req cbs)) = []"
    by (simp_all add: proxy_discovery_miss)
next
  assume a: "bearer req = Some token \<and> discover services ''user-service'' = None"
  then have "dashboard_user js_plus to_fixed services net token = (Inl (cannot_read ''null'' ''url''), [])"
    by (simp add: dashboard_user_def fetch_miss)
  with a have "getDashboard js_plus to_fixed services net req =
     (\<lparr>status = 500,
       json = JObj [(''success'', JBool False),
         (''message'', JStr ''Erro ao carregar dashboard''),
         (''error'', JStr (cannot_read ''null'' ''url''))]\<rparr>, [])"
    by (simp add: dashboard_error)
  then show "status (fst (getDashboard js_plus to_fixed services net req)) = 500"
    and "snd (getDashboard js_plus to_fixed services net req) = []"
    by simp_all
next
  assume a: "bearer req = Some token
        \<and> fst (fetch services net ''user-service'' (validate_config token)) = Inr userData
        \<and> js_prop userData ''success'' = Inr ok \<and> truthy ok
        \<and> (discover services ''list-service'' = None \<or> discover services ''item-service'' = None)"
  then obtain calls0 where
    f0: "fetch services net ''user-service'' (validate_config token) = (Inr userData, calls0)"
    by (cases "fetch services net ''user-service'' (validate_config token)") simp
  from a have ok: "js_prop userData ''success'' = Inr ok" and t: "truthy ok" by simp_all
  from a have "fst (fetch services net ''list-service'' (lists_config token)) =
        Inl (cannot_read ''null'' ''url'')
      \<or> fst (fetch services net ''item-service'' items_config) = Inl (cannot_read ''null'' ''url'')"
    by (auto simp: fetch_miss)
  then obtain e where "fst (dashboard_user js_plus to_fixed services net token) = Inl e"
    using dashboard_user_throws_when_a_fetch_fails [OF f0 ok t] by blast
  then have "dashboard_user js_plus to_fixed services net token =
      (Inl e, snd (dashboard_user js_plus to_fixed services net token))"
    by (cases "dashboard_user js_plus to_fixed services net token") simp
  with a show "status (fst (getDashboard js_plus to_fixed services net req)) = 500"
    using dashboard_error [of req token js_plus to_fixed services net e] by simp
next
  fix c
  assume b: "bearer req = Some token"
    and c: "c \<in> set (snd (getDashboard js_plus to_fixed services net req))"
  then have "c \<in> set (snd (fetch services net ''user-service'' (validate_config token)))
     \<or> c \<in> set (snd (fetch services net ''list-service'' (lists_config token)))
     \<or> c \<in> set (snd (fetch services net ''item-service'' items_config))"
    using dashboard_user_calls [of js_plus to_fixed services net token]
    by (auto simp: getDashboard_calls)
  then show "(\<exists>svc. discover services ''user-service'' = Some svc \<and> c = validate_config token (found_url svc))
         \<or> (\<exists>svc. discover services ''list-service'' = Some svc \<and> c = lists_config token (found_url svc))
         \<or> (\<exists>svc. discover services ''item-service'' = Some svc \<and> c = items_config (found_url svc))"
    by (auto dest: fetch_calls)
next
  assume a: "map_of (query req) ''q'' = Some q \<and> truthy q \<and> discover services ''item-service'' = None"
  then have unfold: "globalSearch encodeURIComponent toLowerCase services net timestamp req =
     (\<lparr>status = 200,
       json = JObj [(''success'', JBool True),
         (''data'', JObj (case bearer req of
              None \<Rightarrow> fst (search_items encodeURIComponent services net q [])
            | Some token \<Rightarrow>
                fst (search_lists toLowerCase services net q token
                  (fst (search_items encodeURIComponent services net q []))))),
         (''search'', JObj [(''query'', q), (''timestamp'', JStr timestamp)])]\<rparr>,
      snd (search_items encodeURIComponent services net q []) @
      (case bearer req of
         None \<Rightarrow> []
       | Some token \<Rightarrow>
           snd (search_lists toLowerCase services net q token
             (fst (search_items encodeURIComponent services net q [])))))"
    by (intro globalSearch_unfold) simp_all
  then show "status (fst (globalSearch encodeURIComponent toLowerCase services net timestamp req)) = 200"
    by simp
  from a have items: "search_items encodeURIComponent services net q [] =
           ([(''itemsError'', JStr (cannot_read ''null'' ''url''))], [])"
    by (simp add: search_items_miss)
  show "\<exists>results e.
            js_prop (json (fst (globalSearch encodeURIComponent toLowerCase services net timestamp req)))
              ''data'' = Inr (JObj results)
            \<and> map_of results ''itemsError'' = Some (JStr e) \<and> map_of results ''items'' = None"
    using unfold items
    by (cases "bearer req") (simp_all add: search_lists_keeps)
next
  assume a: "map_of (query req) ''q'' = Some q \<and> truthy q \<and> bearer req = Some token
        \<and> discover services ''list-service'' = None"
  then have unfold: "globalSearch encodeURIComponent toLowerCase services net timestamp req =
     (\<lparr>status = 200,
       json = JObj [(''success'', JBool True),
         (''data'', JObj (fst (search_lists toLowerCase services net q token
                  (fst (search_items encodeURIComponent services net q []))))),
         (''search'', JObj [(''query'', q), (''timestamp'', JStr timestamp)])]\<rparr>,
      snd (search_items encodeURIComponent services net q []) @
           snd (search_lists toLowerCase services net q token
             (fst (search_items encodeURIComponent services net q []))))"
    using globalSearch_unfold [of req q encodeURIComponent toLowerCase services net timestamp]
    by simp
  then show "status (fst (globalSearch encodeURIComponent toLowerCase services net timestamp req)) = 200"
    by simp
  show "\<exists>results e.
            js_prop (json (fst (globalSearch encodeURIComponent toLowerCase services net timestamp req)))
              ''data'' = Inr (JObj results)
            \<and> map_of results ''listsError'' = Some (JStr e) \<and> map_of results ''lists'' = None"
    using unfold a
    by (simp add: search_lists_miss update_conv' search_items_no_lists)
next
  fix c
  assume a: "map_of (query req) ''q'' = Some q \<and> truthy q"
    and c: "c \<in> set (snd (globalSearch encodeURIComponent toLowerCase services net timestamp req))"
  have "snd (globalSearch encodeURIComponent toLowerCase services net timestamp req) =
      snd (search_items encodeURIComponent services net q []) @
      (case bearer req of
         None \<Rightarrow> []
       | Some token \<Rightarrow>
           snd (search_lists toLowerCase services net q token
             (fst (search_items encodeURIComponent services net q []))))"
    using globalSearch_unfold [of req q encodeURIComponent toLowerCase services net timestamp] a
    by simp
  with c have "c \<in> set (snd (fetch services net ''item-service'' (search_config encodeURIComponent q)))
     \<or> (\<exists>tok. bearer req = Some tok
          \<and> c \<in> set (snd (fetch services net ''list-service'' (lists_config tok))))"
    by (cases "bearer req") (auto simp: search_items_calls search_lists_calls)
  then show "(\<exists>svc. discover services ''item-service'' = Some svc
                \<and> c = search_config encodeURIComponent q (found_url svc))
         \<or> (\<exists>svc tok. bearer req = Some tok \<and> discover services ''list-service'' = Some svc
                \<and> c = lists_config tok (found_url svc))"
    by (auto dest: fetch_calls)
qed

lemma full_discover:
  "discover full_registry ''user-service'' = Some (Record user_service)"
  "discover full_registry ''item-service'' = Some (Record item_service)"
  "discover full_registry ''list-service'' = Some (Record list_service)"
  by (simp_all add: discover_def services_at_def full_registry_def demo_registry_def user_service_def
      item_service_def list_service_def)

lemma demo_no_list_service: "discover demo_registry ''list-service'' = None"
  by (simp add: discover_def services_at_def demo_registry_def object_members_def)

lemma bearer_dashboard: "bearer dashboard_request = Some ''abc''"
  by (simp add: bearer_def dashboard_request_def startsWith_def)

lemma bearer_search:
  "bearer search_request = None"
  "bearer search_request_auth = Some ''abc''"
  "bearer search_request_repeated = Some ''abc''"
  by (simp_all add: bearer_def search_request_def search_request_auth_def
      search_request_repeated_def startsWith_def)

lemma query_search:
  "map_of (query search_request) ''q'' = Some (JStr ''milk'')"
  "map_of (query search_request_auth) ''q'' = Some (JStr ''milk'')"
  "map_of (query search_request_repeated) ''q'' = Some (JArr [JStr ''milk'', JStr ''run''])"
  by (simp_all add: search_request_def search_request_auth_def search_request_repeated_def)

lemma fetch_user_up:
  "fetch full_registry all_up_net ''user-service'' (validate_config ''abc'') =
     (Inr user_data, [validate_config ''abc'' ''http://localhost:3001''])"
  "fetch full_registry items_down_net ''user-service'' (validate_config ''abc'') =
     (Inr user_data, [validate_config ''abc'' ''http://localhost:3001''])"
  "fetch demo_registry all_up_net ''user-service'' (validate_config ''abc'') =
     (Inr user_data, [validate_config ''abc'' ''http://localhost:3001''])"
  "fetch full_registry lists_refused_net ''user-service'' (validate_config ''abc'') =
     (Inr user_data, [validate_config ''abc'' ''http://localhost:3001''])"
  "fetch full_registry items_refused_net ''user-service'' (validate_config ''abc'') =
     (Inr user_data, [validate_config ''abc'' ''http://localhost:3001''])"
  by (simp_all add: fetch_def full_discover demo_discover user_service_def validate_config_def
      axios_post_def all_up_net_def items_down_net_def lists_refused_net_def items_refused_net_def
      startsWith_def Let_def)

lemma fetch_lists_up:
  "fetch full_registry all_up_net ''list-service'' (lists_config ''abc'') =
     (Inr lists_data, [lists_config ''abc'' ''http://localhost:3003''])"
  "fetch full_registry items_down_net ''list-service'' (lists_config ''abc'') =
     (Inr lists_data, [lists_config ''abc'' ''http://localhost:3003''])"
  "fetch full_registry lists_refused_net ''list-service'' (lists_config ''abc'') =
     (Inr refused, [lists_config ''abc'' ''http://localhost:3003''])"
  "fetch full_registry items_refused_net ''list-service'' (lists_config ''abc'') =
     (Inr lists_data, [lists_config ''abc'' ''http://localhost:3003''])"
  by (simp_all add: fetch_def full_discover list_service_def lists_config_def
      axios_get_def all_up_net_def items_down_net_def lists_refused_net_def items_refused_net_def
      startsWith_def Let_def)

lemma fetch_items:
  "fetch full_registry all_up_net ''item-service'' items_config =
     (Inr items_data, [items_config ''http://localhost:3002''])"
  "fetch full_registry items_down_net ''item-service'' items_config =
     (Inl ''timeout of 5000ms exceeded'', [items_config ''http://localhost:3002''])"
  "fetch full_registry lists_refused_net ''item-service'' items_config =
     (Inr items_data, [items_config ''http://localhost:3002''])"
  "fetch full_registry items_refused_net ''item-service'' items_config =
     (Inr refused, [items_config ''http://localhost:3002''])"
  by (simp_all add: fetch_def full_discover item_service_def items_config_def
      axios_get_def all_up_net_def items_down_net_def lists_refused_net_def items_refused_net_def
      startsWith_def Let_def)

lemma fetch_search:
  "fetch full_registry all_up_net ''item-service'' (search_config demo_encode (JStr ''milk'')) =
     (Inr found_data, [search_config demo_encode (JStr ''milk'') ''http://localhost:3002''])"
  "fetch full_registry items_down_net ''item-service'' (search_config demo_encode (JStr ''milk'')) =
     (Inl ''timeout of 5000ms exceeded'',
      [search_config demo_encode (JStr ''milk'') ''http://localhost:3002''])"
  "fetch full_registry items_refused_net ''item-service'' (search_config demo_encode (JStr ''milk'')) =
     (Inr refused, [search_config demo_encode (JStr ''milk'') ''http://localhost:3002''])"
  "fetch full_registry items_down_net ''item-service''
      (search_config demo_encode (JArr [JStr ''milk'', JStr ''run''])) =
     (Inl ''timeout of 5000ms exceeded'',
      [search_config demo_encode (JArr [JStr ''milk'', JStr ''run'']) ''http://localhost:3002''])"
  by (simp_all add: fetch_def full_discover item_service_def search_config_def demo_encode_def
      axios_get_def all_up_net_def items_down_net_def items_refused_net_def startsWith_def Let_def)

lemma user_data_props:
  "js_prop user_data ''success'' = Inr (JBool True)"
  "js_prop user_data ''data'' = Inr (JObj [(''user'', demo_user)])"
  "js_prop (JObj [(''user'', demo_user)]) ''user'' = Inr demo_user"
  by (simp_all add: user_data_def)

lemma refused_props: "js_prop refused ''success'' = Inr (JBool False)"
  by (simp add: refused_def)

lemma lists_of_lists_data: "lists_of lists_data = Inr (JArr [milk_run, tools])"
  by (simp add: lists_of_def lists_data_def)

lemma totalItems_of_items_data: "totalItems_of items_data = Inr (JNum 7)"
  by (simp add: totalItems_of_def items_data_def)

text \<open>The statistics code on the example: two lists, one active and one completed.\<close>

lemma dashboard_data_all_up:
  "dashboard_data plus_numbers fixed_numbers demo_user (JArr [milk_run, tools]) (JNum 7) =
     Inr (JObj [(''user'', user_card),
       (''statistics'', JObj [(''totalLists'', JNum 2), (''activeLists'', JNum 1),
          (''completedLists'', JNum 1), (''totalItems'', JNum 7), (''totalEstimated'', JNum 42.5)]),
       (''recentLists'', JArr [milk_run_card, tools_card])])"
  by (simp add: dashboard_data_def has_status_def recent_list_def js_object_def
      plus_numbers_def fixed_numbers_def demo_user_def user_card_def milk_run_def tools_def
      milk_run_card_def tools_card_def)

lemma dashboard_data_items_defaulted:
  "dashboard_data plus_numbers fixed_numbers demo_user (JArr [milk_run, tools]) (JNum 0) =
     Inr (JObj [(''user'', user_card),
       (''statistics'', JObj [(''totalLists'', JNum 2), (''activeLists'', JNum 1),
          (''completedLists'', JNum 1), (''totalItems'', JNum 0), (''totalEstimated'', JNum 42.5)]),
       (''recentLists'', JArr [milk_run_card, tools_card])])"
  by (simp add: dashboard_data_def has_status_def recent_list_def js_object_def
      plus_numbers_def fixed_numbers_def demo_user_def user_card_def milk_run_def tools_def
      milk_run_card_def tools_card_def)

lemma dashboard_data_lists_defaulted:
  "dashboard_data plus_numbers fixed_numbers demo_user (JArr []) (JNum 7) =
     Inr (JObj [(''user'', user_card),
       (''statistics'', JObj [(''totalLists'', JNum 0), (''activeLists'', JNum 0),
          (''completedLists'', JNum 0), (''totalItems'', JNum 7), (''totalEstimated'', JNum 0)]),
       (''recentLists'', JArr [])])"
  by (simp add: dashboard_data_def js_object_def fixed_numbers_def demo_user_def user_card_def)

lemma dashboard_all_up:
  "getDashboard plus_numbers fixed_numbers full_registry all_up_net dashboard_request =
     (\<lparr>status = 200,
       json = JObj [(''success'', JBool True),
         (''data'', JObj [(''user'', user_card),
            (''statistics'', JObj [(''totalLists'', JNum 2), (''activeLists'', JNum 1),
               (''completedLists'', JNum 1), (''totalItems'', JNum 7),
               (''totalEstimated'', JNum 42.5)]),
            (''recentLists'', JArr [milk_run_card, tools_card])])]\<rparr>,
      [validate_config ''abc'' ''http://localhost:3001'', lists_config ''abc'' ''http://localhost:3003'',
       items_config ''http://localhost:3002''])"
  by (simp add: getDashboard_def bearer_dashboard dashboard_user_def dashboard_lists_def
      dashboard_items_def fetch_user_up fetch_lists_up fetch_items user_data_props
      lists_of_lists_data totalItems_of_items_data dashboard_data_all_up)

text \<open>
  Claim C6 as stated fails: the list backend answers 200 with a falsy success flag, and
  the dashboard is sent as a success with the lists section defaulted: no lists, no recent
  lists, an estimated total of zero.
\<close>

theorem dashboard_defaults_refused_lists:
  "fst (fetch full_registry lists_refused_net ''list-service'' (lists_config ''abc'')) = Inr refused
   \<and> js_prop refused ''success'' = Inr (JBool False)
   \<and> fst (getDashboard plus_numbers fixed_numbers full_registry lists_refused_net dashboard_request) =
       \<lparr>status = 200,
        json = JObj [(''success'', JBool True),
          (''data'', JObj [(''user'', user_card),
             (''statistics'', JObj [(''totalLists'', JNum 0), (''activeLists'', JNum 0),
                (''completedLists'', JNum 0), (''totalItems'', JNum 7), (''totalEstimated'', JNum 0)]),
             (''recentLists'', JArr [])])]\<rparr>"
  by (simp add: getDashboard_def bearer_dashboard dashboard_user_def dashboard_lists_def
      dashboard_items_def fetch_user_up fetch_lists_up fetch_items user_data_props refused_props
      lists_of_def totalItems_of_items_data dashboard_data_lists_defaulted)

text \<open>
  The amended claim C6 on the example: the item backend timing out, the list service
  missing, all backends up, and each of the two backends answering with a falsy success
  flag.
\<close>

theorem dashboard_all_or_nothing_witness:
  "fst (getDashboard plus_numbers fixed_numbers full_registry items_down_net dashboard_request) =
     \<lparr>status = 500,
      json = JObj [(''success'', JBool False),
        (''message'', JStr ''Erro ao carregar dashboard''),
        (''error'', JStr ''timeout of 5000ms exceeded'')]\<rparr>
   \<and> fst (getDashboard plus_numbers fixed_numbers demo_registry all_up_net dashboard_request) =
     \<lparr>status = 500,
      json = JObj [(''success'', JBool False),
        (''message'', JStr ''Erro ao carregar dashboard''),
        (''error'', JStr (cannot_read ''null'' ''url''))]\<rparr>
   \<and> status (fst (getDashboard plus_numbers fixed_numbers full_registry all_up_net dashboard_request)) = 200
   \<and> (\<exists>listsData itemsData.
         fst (fetch full_registry all_up_net ''list-service'' (lists_config ''abc'')) = Inr listsData
         \<and> fst (fetch full_registry all_up_net ''item-service'' items_config) = Inr itemsData)
   \<and> fst (getDashboard plus_numbers fixed_numbers full_registry lists_refused_net dashboard_request) =
       \<lparr>status = 200,
        json = JObj [(''success'', JBool True),
          (''data'', JObj [(''user'', user_card),
             (''statistics'', JObj [(''totalLists'', JNum 0), (''activeLists'', JNum 0),
                (''completedLists'', JNum 0), (''totalItems'', JNum 7), (''totalEstimated'', JNum 0)]),
             (''recentLists'', JArr [])])]\<rparr>
   \<and> fst (getDashboard plus_numbers fixed_numbers full_registry items_refused_net dashboard_request) =
       \<lparr>status = 200,
        json = JObj [(''success'', JBool True),
          (''data'', JObj [(''user'', user_card),
             (''statistics'', JObj [(''totalLists'', JNum 2), (''activeLists'', JNum 1),
                (''completedLists'', JNum 1), (''totalItems'', JNum 0),
                (''totalEstimated'', JNum 42.5)]),
             (''recentLists'', JArr [milk_run_card, tools_card])])]\<rparr>"
proof -
  let ?d = "JObj [(''user'', demo_user)]"
  have t: "truthy (JBool True)" by simp
  note items_down = dashboard_all_or_nothing
    [OF bearer_dashboard fetch_user_up(2) user_data_props(1) t,
     where d = ?d and user = demo_user and listsData = lists_data
       and lists' = "JArr [milk_run, tools]"
       and ?e2.0 = "''timeout of 5000ms exceeded''" and js_plus = plus_numbers
       and to_fixed = fixed_numbers]
  note no_lists = dashboard_all_or_nothing
    [OF bearer_dashboard fetch_user_up(3) user_data_props(1) t,
     where ?e1.0 = "cannot_read ''null'' ''url''" and d = ?d and user = demo_user
       and js_plus = plus_numbers and to_fixed = fixed_numbers]
  note all_up = dashboard_all_or_nothing
    [OF bearer_dashboard fetch_user_up(1) user_data_props(1) t,
     where js_plus = plus_numbers and to_fixed = fixed_numbers]
  note lists_refused = dashboard_all_or_nothing
    [OF bearer_dashboard fetch_user_up(4) user_data_props(1) t,
     where d = ?d and user = demo_user and listsData = refused and lok = "JBool False"
       and itemsData = items_data and totalItems = "JNum 7"
       and js_plus = plus_numbers and to_fixed = fixed_numbers]
  note items_refused = dashboard_all_or_nothing
    [OF bearer_dashboard fetch_user_up(5) user_data_props(1) t,
     where d = ?d and user = demo_user and listsData = lists_data
       and lists' = "JArr [milk_run, tools]" and itemsData = refused and iok = "JBool False"
       and js_plus = plus_numbers and to_fixed = fixed_numbers]
  have 1: "fst (getDashboard plus_numbers fixed_numbers full_registry items_down_net dashboard_request) =
     \<lparr>status = 500,
      json = JObj [(''success'', JBool False),
        (''message'', JStr ''Erro ao carregar dashboard''),
        (''error'', JStr ''timeout of 5000ms exceeded'')]\<rparr>"
    using items_down
    by (simp add: user_data_props fetch_lists_up fetch_items lists_of_lists_data)
  have 2: "fst (getDashboard plus_numbers fixed_numbers demo_registry all_up_net dashboard_request) =
     \<lparr>status = 500,
      json = JObj [(''success'', JBool False),
        (''message'', JStr ''Erro ao carregar dashboard''),
        (''error'', JStr (cannot_read ''null'' ''url''))]\<rparr>"
    using no_lists by (simp add: user_data_props fetch_miss demo_no_list_service)
  have 3: "status (fst (getDashboard plus_numbers fixed_numbers full_registry all_up_net dashboard_request)) = 200"
    by (simp add: dashboard_all_up)
  have 4: "\<exists>listsData itemsData.
         fst (fetch full_registry all_up_net ''list-service'' (lists_config ''abc'')) = Inr listsData
         \<and> fst (fetch full_registry all_up_net ''item-service'' items_config) = Inr itemsData"
    using all_up 3 by blast
  have 5: "fst (getDashboard plus_numbers fixed_numbers full_registry lists_refused_net dashboard_request) =
       \<lparr>status = 200,
        json = JObj [(''success'', JBool True),
          (''data'', JObj [(''user'', user_card),
             (''statistics'', JObj [(''totalLists'', JNum 0), (''activeLists'', JNum 0),
                (''completedLists'', JNum 0), (''totalItems'', JNum 7), (''totalEstimated'', JNum 0)]),
             (''recentLists'', JArr [])])]\<rparr>"
    using lists_refused
    by (simp add: user_data_props fetch_lists_up fetch_items refused_props
        totalItems_of_items_data dashboard_data_lists_defaulted)
  have 6: "fst (getDashboard plus_numbers fixed_numbers full_registry items_refused_net dashboard_request) =
       \<lparr>status = 200,
        json = JObj [(''success'', JBool True),
          (''data'', JObj [(''user'', user_card),
             (''statistics'', JObj [(''totalLists'', JNum 2), (''activeLists'', JNum 1),
                (''completedLists'', JNum 1), (''totalItems'', JNum 0),
                (''totalEstimated'', JNum 42.5)]),
             (''recentLists'', JArr [milk_run_card, tools_card])])]\<rparr>"
    using items_refused
    by (simp add: user_data_props fetch_lists_up fetch_items refused_props
        lists_of_lists_data dashboard_data_items_defaulted)
  from 1 2 3 4 5 6 show ?thesis by blast
qed





text \<open>
  Claim C5 as stated fails on the aggregator paths: with nothing registered, the search
  answers 200 and the dashboard answers 500, not 503.
\<close>

theorem discovery_miss_is_not_503_on_aggregators:
  "discover empty_registry ''item-service'' = None
   \<and> status (fst (globalSearch demo_encode ascii_lower empty_registry all_up_net
         ''2026-01-01T00:00:00.000Z'' search_request)) = 200
   \<and> discover empty_registry ''user-service'' = None
   \<and> status (fst (getDashboard plus_numbers fixed_numbers empty_registry all_up_net
         dashboard_request)) = 500"
  by (simp add: empty_discover globalSearch_def Let_def query_q_def query_search bearer_search
      getDashboard_def bearer_dashboard dashboard_user_def search_items_def fetch_miss split_beta)

text \<open>
  The amended claim C5 on the example: an empty registry on the three paths, the list
  service missing on the dashboard and on the search, and the calls made with every
  service registered.
\<close>

theorem discovery_miss_makes_no_call_witness:
  "status (fst (snd (proxyToService demo_url_host empty_registry all_up_net ''user-service'' 10 11
       demo_request initial_breakers))) = 503
   \<and> snd (snd (proxyToService demo_url_host empty_registry all_up_net ''user-service'' 10 11
       demo_request initial_breakers)) = []
   \<and> status (fst (getDashboard plus_numbers fixed_numbers empty_registry all_up_net
         dashboard_request)) = 500
   \<and> snd (getDashboard plus_numbers fixed_numbers empty_registry all_up_net dashboard_request) = []
   \<and> status (fst (getDashboard plus_numbers fixed_numbers demo_registry all_up_net
         dashboard_request)) = 500
   \<and> validate_config ''abc'' ''http://localhost:3001''
        \<in> set (snd (getDashboard plus_numbers fixed_numbers full_registry all_up_net dashboard_request))
   \<and> status (fst (globalSearch demo_encode ascii_lower empty_registry all_up_net
         ''2026-01-01T00:00:00.000Z'' search_request)) = 200
   \<and> status (fst (globalSearch demo_encode ascii_lower demo_registry items_down_net
         ''2026-01-01T00:00:00.000Z'' search_request_auth)) = 200
   \<and> search_config demo_encode (JStr ''milk'') ''http://localhost:3002''
        \<in> set (snd (globalSearch demo_encode ascii_lower full_registry all_up_net
              ''2026-01-01T00:00:00.000Z'' search_request))"
proof -
  have q: "truthy (JStr ''milk'')" by simp
  have t: "truthy (JBool True)" by simp
  note th_proxy = discovery_miss_makes_no_call
    [where services = empty_registry and serviceName = "''user-service''"
       and url_host = demo_url_host
       and net = all_up_net and t = 10 and t' = 11 and req = demo_request
       and cbs = initial_breakers]
  note th_dash = discovery_miss_makes_no_call
    [where services = empty_registry and net = all_up_net and req = dashboard_request
       and token = "''abc''" and js_plus = plus_numbers and to_fixed = fixed_numbers]
  note th_dash_lists = discovery_miss_makes_no_call
    [where services = demo_registry and net = all_up_net and req = dashboard_request
       and token = "''abc''" and userData = user_data and ok = "JBool True"
       and js_plus = plus_numbers and to_fixed = fixed_numbers]
  note th_search = discovery_miss_makes_no_call
    [where services = empty_registry and net = all_up_net and req = search_request
       and q = "JStr ''milk''" and encodeURIComponent = demo_encode and toLowerCase = ascii_lower
       and timestamp = "''2026-01-01T00:00:00.000Z''"]
  note th_lists = discovery_miss_makes_no_call
    [where services = demo_registry and net = items_down_net and req = search_request_auth
       and token = "''abc''" and q = "JStr ''milk''" and encodeURIComponent = demo_encode
       and toLowerCase = ascii_lower and timestamp = "''2026-01-01T00:00:00.000Z''"]
  note th_full_dash = discovery_miss_makes_no_call
    [where services = full_registry and net = all_up_net and req = dashboard_request
       and token = "''abc''" and js_plus = plus_numbers and to_fixed = fixed_numbers]
  note th_full_search = discovery_miss_makes_no_call
    [where services = full_registry and net = all_up_net and req = search_request
       and q = "JStr ''milk''" and encodeURIComponent = demo_encode and toLowerCase = ascii_lower
       and timestamp = "''2026-01-01T00:00:00.000Z''"]
  have 1: "status (fst (snd (proxyToService demo_url_host empty_registry all_up_net ''user-service'' 10 11
       demo_request initial_breakers))) = 503
   \<and> snd (snd (proxyToService demo_url_host empty_registry all_up_net ''user-service'' 10 11
       demo_request initial_breakers)) = []
   \<and> status (fst (getDashboard plus_numbers fixed_numbers empty_registry all_up_net
         dashboard_request)) = 500
   \<and> snd (getDashboard plus_numbers fixed_numbers empty_registry all_up_net dashboard_request) = []
   \<and> status (fst (globalSearch demo_encode ascii_lower empty_registry all_up_net
         ''2026-01-01T00:00:00.000Z'' search_request)) = 200"
    using th_proxy th_dash th_search q
    by (simp add: empty_discover bearer_dashboard query_search)
  have 2: "status (fst (globalSearch demo_encode ascii_lower demo_registry items_down_net
         ''2026-01-01T00:00:00.000Z'' search_request_auth)) = 200"
    using th_lists q by (simp add: demo_no_list_service bearer_search query_search)
  have 3: "status (fst (getDashboard plus_numbers fixed_numbers demo_registry all_up_net
         dashboard_request)) = 500"
    using th_dash_lists t
    by (simp add: demo_no_list_service bearer_dashboard fetch_user_up user_data_props)
  have calls: "snd (getDashboard plus_numbers fixed_numbers full_registry all_up_net dashboard_request) =
      [validate_config ''abc'' ''http://localhost:3001'', lists_config ''abc'' ''http://localhost:3003'',
       items_config ''http://localhost:3002'']"
    by (simp add: dashboard_all_up)
  have scalls: "snd (globalSearch demo_encode ascii_lower full_registry all_up_net
              ''2026-01-01T00:00:00.000Z'' search_request) =
      [search_config demo_encode (JStr ''milk'') ''http://localhost:3002'']"
    by (simp add: globalSearch_def Let_def query_q_def query_search bearer_search search_items_def
        fetch_search found_data_def)
  have 4: "validate_config ''abc'' ''http://localhost:3001''
        \<in> set (snd (getDashboard plus_numbers fixed_numbers full_registry all_up_net dashboard_request))
     \<and> search_config demo_encode (JStr ''milk'') ''http://localhost:3002''
        \<in> set (snd (globalSearch demo_encode ascii_lower full_registry all_up_net
              ''2026-01-01T00:00:00.000Z'' search_request))"
    using th_full_dash th_full_search calls scalls by simp
  from 1 2 3 4 show ?thesis by blast
qed

end
